theory Spec2Isabelle
  imports Main "HOL-Library.Word"
begin

section \<open>Memory model\<close>

text \<open>
  The repository holds three stages of one smart-pointer library. The headers
  under \<^verbatim>\<open>src/shared-from-this\<close> (\<^verbatim>\<open>shared.h\<close>, \<^verbatim>\<open>weak.h\<close>, \<^verbatim>\<open>sw_fwd.h\<close>) are
  the complete one, with strong and weak counters, the destroyed flag and
  \<^verbatim>\<open>EnableSharedFromThis\<close>; they are what is embedded here.
  \<^verbatim>\<open>src/shared/shared.h\<close> is the stage with a single counter and no weak
  handles, and \<^verbatim>\<open>src/weak/weak.h\<close> is the stage before the self-reference flag,
  whose \<^verbatim>\<open>shared.h\<close> is not among the sources.

  Control blocks and managed objects live in two stores indexed by address; a
  pointer is an optional address, \<open>None\<close> being \<^verbatim>\<open>nullptr\<close>. An address that is
  absent from a store is unallocated or already freed, and following a pointer
  to it is undefined behaviour, which the model reports as an error value, as it
  does for a null pointer that is dereferenced. \<^verbatim>\<open>size_t\<close> is a 64-bit word, so
  \<^verbatim>\<open>++\<close> and \<^verbatim>\<open>--\<close> wrap around as they do in the source.
\<close>

type_synonym addr = nat
type_synonym size_t = "64 word"

text \<open>
  \<^verbatim>\<open>BadWeakPtr\<close> is the exception of \<^verbatim>\<open>sw_fwd.h\<close>. \<open>NullDeref\<close> and
  \<open>UseAfterFree\<close> are undefined behaviour. \<open>IllTyped\<close> stands for a pointer whose
  static type derives from \<^verbatim>\<open>ESFTBase\<close> while the object it points to does not,
  and \<open>IllFormed\<close> for a program that names a handle that is not live; the C++
  compiler rules both out.
\<close>

datatype error = BadWeakPtr | NullDeref | UseAfterFree | IllTyped | IllFormed

text \<open>
  \<^verbatim>\<open>DefaultBlock<T>\<close> carries \<^verbatim>\<open>deletem_ptr\<close>; \<^verbatim>\<open>InlineBlock<T>\<close> carries the
  address of its embedded \<^verbatim>\<open>storage\<close>.
\<close>

datatype block_kind = DefaultBlock "addr option" | InlineBlock addr

record ControlBlock =
  strong_ref_cnt :: size_t
  weak_ref_cnt :: size_t
  is_destroyed :: bool
  kind :: block_kind

record SharedPtr =
  sp_control_block :: "addr option"
  sp_ptr :: "addr option"

record WeakPtr =
  wp_control_block :: "addr option"
  wp_ptr :: "addr option"
  is_esft_ptr :: bool

text \<open>
  A managed object either derives from \<^verbatim>\<open>EnableSharedFromThis\<close>, and then holds
  the member \<^verbatim>\<open>weak_this_\<close>, or it does not. User-written destructor bodies are
  taken to be empty; \<open>dtor_runs\<close> counts how often the destructor of the object at
  an address has been run.
\<close>

datatype object = PlainObject | EsftObject WeakPtr

record heap =
  blocks :: "addr \<rightharpoonup> ControlBlock"
  objects :: "addr \<rightharpoonup> object"
  dtor_runs :: "addr \<Rightarrow> nat"

text \<open>
  An operation yields either \<open>Inr\<close> of its result and the heap after it, or
  \<open>Inl\<close> of the error and the heap at the point where it was raised.
\<close>

type_synonym 'a result = "(error \<times> heap) + ('a \<times> heap)"

section \<open>\<^verbatim>\<open>ControlBlockBase\<close>\<close>

definition new_block :: "block_kind \<Rightarrow> ControlBlock" where
  "new_block k = \<lparr>strong_ref_cnt = 0, weak_ref_cnt = 0, is_destroyed = False, kind = k\<rparr>"

definition IncStrongRef :: "ControlBlock \<Rightarrow> ControlBlock" where
  "IncStrongRef blk = blk\<lparr>strong_ref_cnt := strong_ref_cnt blk + 1\<rparr>"

definition DecStrongRef :: "ControlBlock \<Rightarrow> ControlBlock" where
  "DecStrongRef blk = blk\<lparr>strong_ref_cnt := strong_ref_cnt blk - 1\<rparr>"

definition GetStrongCounter :: "ControlBlock \<Rightarrow> size_t" where
  "GetStrongCounter blk = strong_ref_cnt blk"

definition IncWeakRef :: "ControlBlock \<Rightarrow> ControlBlock" where
  "IncWeakRef blk = blk\<lparr>weak_ref_cnt := weak_ref_cnt blk + 1\<rparr>"

definition DecWeakRef :: "ControlBlock \<Rightarrow> ControlBlock" where
  "DecWeakRef blk = blk\<lparr>weak_ref_cnt := weak_ref_cnt blk - 1\<rparr>"

definition GetWeakCounter :: "ControlBlock \<Rightarrow> size_t" where
  "GetWeakCounter blk = weak_ref_cnt blk"

definition GetAllCounter :: "ControlBlock \<Rightarrow> size_t" where
  "GetAllCounter blk = strong_ref_cnt blk + weak_ref_cnt blk"

definition IsDestroyed :: "ControlBlock \<Rightarrow> bool" where
  "IsDestroyed blk = is_destroyed blk"

definition CanDeleteControlBlock :: "ControlBlock \<Rightarrow> bool" where
  "CanDeleteControlBlock blk = (GetAllCounter blk = 0)"

definition store_block :: "addr \<Rightarrow> ControlBlock \<Rightarrow> heap \<Rightarrow> heap" where
  "store_block b blk h = h\<lparr>blocks := (blocks h)(b \<mapsto> blk)\<rparr>"

text \<open>\<^verbatim>\<open>delete control_block_\<close>: the block's destructor is trivial for both variants.\<close>

definition delete_block :: "addr \<Rightarrow> heap \<Rightarrow> heap" where
  "delete_block b h = h\<lparr>blocks := (blocks h)(b := None)\<rparr>"

section \<open>\<^verbatim>\<open>WeakPtr\<close>: counters, \<^verbatim>\<open>Reset\<close>, \<^verbatim>\<open>Swap\<close>\<close>

definition WeakPtr_default :: WeakPtr where
  "WeakPtr_default = \<lparr>wp_control_block = None, wp_ptr = None, is_esft_ptr = False\<rparr>"

definition IncreaseWeakCounter :: "WeakPtr \<Rightarrow> heap \<Rightarrow> (error \<times> heap) + heap" where
  "IncreaseWeakCounter w h =
     (case wp_control_block w of
        None \<Rightarrow> Inr h
      | Some b \<Rightarrow>
          (case blocks h b of
             None \<Rightarrow> Inl (UseAfterFree, h)
           | Some blk \<Rightarrow> Inr (store_block b (IncWeakRef blk) h)))"

definition DecreaseWeakCounter :: "WeakPtr \<Rightarrow> heap \<Rightarrow> (error \<times> heap) + heap" where
  "DecreaseWeakCounter w h =
     (case wp_control_block w of
        None \<Rightarrow> Inr h
      | Some b \<Rightarrow>
          (case blocks h b of
             None \<Rightarrow> Inl (UseAfterFree, h)
           | Some blk \<Rightarrow>
               (let h1 = store_block b (DecWeakRef blk) h in
                if \<not> is_esft_ptr w \<and> CanDeleteControlBlock (DecWeakRef blk)
                then Inr (delete_block b h1)
                else Inr h1)))"

definition WeakPtr_Reset :: "WeakPtr \<Rightarrow> heap \<Rightarrow> WeakPtr result" where
  "WeakPtr_Reset w h =
     (case DecreaseWeakCounter w h of
        Inl e \<Rightarrow> Inl e
      | Inr h1 \<Rightarrow> Inr (w\<lparr>wp_control_block := None, wp_ptr := None\<rparr>, h1))"

text \<open>\<^verbatim>\<open>Swap\<close> exchanges \<^verbatim>\<open>control_block_\<close> and \<^verbatim>\<open>ptr_\<close> only.\<close>

definition WeakPtr_Swap :: "WeakPtr \<Rightarrow> WeakPtr \<Rightarrow> WeakPtr \<times> WeakPtr" where
  "WeakPtr_Swap w other =
     (w\<lparr>wp_control_block := wp_control_block other, wp_ptr := wp_ptr other\<rparr>,
      other\<lparr>wp_control_block := wp_control_block w, wp_ptr := wp_ptr w\<rparr>)"

definition MakeEsftPtr :: "WeakPtr \<Rightarrow> WeakPtr" where
  "MakeEsftPtr w = w\<lparr>is_esft_ptr := True\<rparr>"

text \<open>
  The constructors start from the default member initialisers, so the new handle
  has \<^verbatim>\<open>is_esft_ptr_ = false\<close> whatever the source handle holds.
\<close>

definition WeakPtr_copy :: "WeakPtr \<Rightarrow> heap \<Rightarrow> WeakPtr result" where
  "WeakPtr_copy other h =
     (let w = \<lparr>wp_control_block = wp_control_block other, wp_ptr = wp_ptr other,
                is_esft_ptr = False\<rparr> in
      case IncreaseWeakCounter w h of
        Inl e \<Rightarrow> Inl e
      | Inr h1 \<Rightarrow> Inr (w, h1))"

text \<open>The move constructor returns the new handle and the moved-from one.\<close>

definition WeakPtr_move :: "WeakPtr \<Rightarrow> heap \<Rightarrow> (WeakPtr \<times> WeakPtr) result" where
  "WeakPtr_move other h =
     (let w = \<lparr>wp_control_block = wp_control_block other, wp_ptr = wp_ptr other,
                is_esft_ptr = False\<rparr> in
      case IncreaseWeakCounter w h of
        Inl e \<Rightarrow> Inl e
      | Inr h1 \<Rightarrow>
          (case WeakPtr_Reset other h1 of
             Inl e \<Rightarrow> Inl e
           | Inr (other', h2) \<Rightarrow> Inr ((w, other'), h2)))"

definition WeakPtr_from_shared :: "SharedPtr \<Rightarrow> heap \<Rightarrow> WeakPtr result" where
  "WeakPtr_from_shared other h =
     (let w = \<lparr>wp_control_block = sp_control_block other, wp_ptr = sp_ptr other,
                is_esft_ptr = False\<rparr> in
      case IncreaseWeakCounter w h of
        Inl e \<Rightarrow> Inl e
      | Inr h1 \<Rightarrow> Inr (w, h1))"

text \<open>
  The assignment operators compare addresses (\<^verbatim>\<open>this != &other\<close>); \<open>same\<close> is
  the outcome of \<^verbatim>\<open>this == &other\<close>.
\<close>

definition WeakPtr_copy_assign :: "bool \<Rightarrow> WeakPtr \<Rightarrow> WeakPtr \<Rightarrow> heap \<Rightarrow> WeakPtr result" where
  "WeakPtr_copy_assign same w other h =
     (if \<not> same then
        (case WeakPtr_Reset w h of
           Inl e \<Rightarrow> Inl e
         | Inr (w1, h1) \<Rightarrow>
             (let w2 = w1\<lparr>wp_control_block := wp_control_block other, wp_ptr := wp_ptr other\<rparr> in
              case IncreaseWeakCounter w2 h1 of
                Inl e \<Rightarrow> Inl e
              | Inr h2 \<Rightarrow> Inr (w2, h2)))
      else Inr (w, h))"

definition WeakPtr_move_assign ::
    "bool \<Rightarrow> WeakPtr \<Rightarrow> WeakPtr \<Rightarrow> heap \<Rightarrow> (WeakPtr \<times> WeakPtr) result" where
  "WeakPtr_move_assign same w other h =
     (if \<not> same then
        (case WeakPtr_Reset w h of
           Inl e \<Rightarrow> Inl e
         | Inr (w1, h1) \<Rightarrow> Inr (WeakPtr_Swap w1 other, h1))
      else Inr ((w, other), h))"

definition WeakPtr_UseCount :: "WeakPtr \<Rightarrow> heap \<Rightarrow> (error \<times> heap) + size_t" where
  "WeakPtr_UseCount w h =
     (case wp_control_block w of
        None \<Rightarrow> Inr 0
      | Some b \<Rightarrow>
          (case blocks h b of
             None \<Rightarrow> Inl (UseAfterFree, h)
           | Some blk \<Rightarrow> Inr (GetStrongCounter blk)))"

definition Expired :: "WeakPtr \<Rightarrow> heap \<Rightarrow> (error \<times> heap) + bool" where
  "Expired w h =
     (case wp_control_block w of
        None \<Rightarrow> Inr True
      | Some b \<Rightarrow>
          (case blocks h b of
             None \<Rightarrow> Inl (UseAfterFree, h)
           | Some blk \<Rightarrow> Inr (IsDestroyed blk)))"

section \<open>Destroying the managed object\<close>

text \<open>
  Running the destructor of the object at \<open>a\<close>, as \<^verbatim>\<open>delete deletem_ptr\<close> and
  \<^verbatim>\<open>reinterpret_cast<T*>(storage)->~T()\<close> do: for an object deriving from
  \<^verbatim>\<open>EnableSharedFromThis\<close> the member \<^verbatim>\<open>weak_this_\<close> is destroyed, which resets
  it. The object's lifetime ends.
\<close>

definition destroy_object :: "addr \<Rightarrow> heap \<Rightarrow> (error \<times> heap) + heap" where
  "destroy_object a h =
     (case objects h a of
        None \<Rightarrow> Inl (UseAfterFree, h)
      | Some ob \<Rightarrow>
          (let h1 = h\<lparr>dtor_runs := (dtor_runs h)(a := dtor_runs h a + 1)\<rparr> in
           case ob of
             PlainObject \<Rightarrow> Inr (h1\<lparr>objects := (objects h1)(a := None)\<rparr>)
           | EsftObject wt \<Rightarrow>
               (case WeakPtr_Reset wt h1 of
                  Inl e \<Rightarrow> Inl e
                | Inr (wt', h2) \<Rightarrow> Inr (h2\<lparr>objects := (objects h2)(a := None)\<rparr>))))"

text \<open>\<^verbatim>\<open>DefaultBlock::Destroy\<close> and \<^verbatim>\<open>InlineBlock::Destroy\<close>, by the block's variant.\<close>

definition Destroy :: "addr \<Rightarrow> heap \<Rightarrow> (error \<times> heap) + heap" where
  "Destroy b h =
     (case blocks h b of
        None \<Rightarrow> Inl (UseAfterFree, h)
      | Some blk \<Rightarrow>
          (if \<not> is_destroyed blk then
             (let h1 = store_block b (blk\<lparr>strong_ref_cnt := 0, is_destroyed := True\<rparr>) h in
              case kind blk of
                DefaultBlock p \<Rightarrow>
                  (case p of
                     None \<Rightarrow> Inr h1
                   | Some a \<Rightarrow> destroy_object a h1)
              | InlineBlock a \<Rightarrow> destroy_object a h1)
           else Inr h))"

section \<open>\<^verbatim>\<open>SharedPtr\<close>\<close>

definition IncreaseStrongCounter :: "SharedPtr \<Rightarrow> heap \<Rightarrow> (error \<times> heap) + heap" where
  "IncreaseStrongCounter sp h =
     (case sp_control_block sp of
        None \<Rightarrow> Inr h
      | Some b \<Rightarrow>
          (case blocks h b of
             None \<Rightarrow> Inl (UseAfterFree, h)
           | Some blk \<Rightarrow> Inr (store_block b (IncStrongRef blk) h)))"

definition DecreaseStrongCounter :: "SharedPtr \<Rightarrow> heap \<Rightarrow> (error \<times> heap) + heap" where
  "DecreaseStrongCounter sp h =
     (case sp_control_block sp of
        None \<Rightarrow> Inr h
      | Some b \<Rightarrow>
          (case blocks h b of
             None \<Rightarrow> Inl (UseAfterFree, h)
           | Some blk \<Rightarrow>
               (let h1 = store_block b (DecStrongRef blk) h in
                if GetStrongCounter (DecStrongRef blk) = 0 then
                  (case Destroy b h1 of
                     Inl e \<Rightarrow> Inl e
                   | Inr h2 \<Rightarrow>
                       (case blocks h2 b of
                          None \<Rightarrow> Inl (UseAfterFree, h2)
                        | Some blk2 \<Rightarrow>
                            if CanDeleteControlBlock blk2 then Inr (delete_block b h2)
                            else Inr h2))
                else Inr h1)))"

definition SharedPtr_GetStrongCounter :: "SharedPtr \<Rightarrow> heap \<Rightarrow> (error \<times> heap) + size_t" where
  "SharedPtr_GetStrongCounter sp h =
     (case sp_control_block sp of
        None \<Rightarrow> Inr 0
      | Some b \<Rightarrow>
          (case blocks h b of
             None \<Rightarrow> Inl (UseAfterFree, h)
           | Some blk \<Rightarrow> Inr (GetStrongCounter blk)))"

definition UseCount :: "SharedPtr \<Rightarrow> heap \<Rightarrow> (error \<times> heap) + size_t" where
  "UseCount sp h = SharedPtr_GetStrongCounter sp h"

definition SharedPtr_Get :: "SharedPtr \<Rightarrow> addr option" where
  "SharedPtr_Get sp = sp_ptr sp"

definition SharedPtr_bool :: "SharedPtr \<Rightarrow> bool" where
  "SharedPtr_bool sp = (sp_ptr sp \<noteq> None)"

definition SharedPtr_default :: SharedPtr where
  "SharedPtr_default = \<lparr>sp_control_block = None, sp_ptr = None\<rparr>"

definition SharedPtr_nullptr :: SharedPtr where
  "SharedPtr_nullptr = \<lparr>sp_control_block = None, sp_ptr = None\<rparr>"

text \<open>
  \<^verbatim>\<open>InitWeakThis\<close>: \<^verbatim>\<open>esft_block->weak_this_ = WeakPtr<Y>(*this)\<close> builds a
  temporary from the handle, move-assigns it to the member, destroys the
  temporary, and then flags the member.
\<close>

definition InitWeakThis :: "SharedPtr \<Rightarrow> addr option \<Rightarrow> heap \<Rightarrow> (error \<times> heap) + heap" where
  "InitWeakThis sp p h =
     (case p of
        None \<Rightarrow> Inl (NullDeref, h)
      | Some a \<Rightarrow>
          (case objects h a of
             None \<Rightarrow> Inl (UseAfterFree, h)
           | Some PlainObject \<Rightarrow> Inl (IllTyped, h)
           | Some (EsftObject wt) \<Rightarrow>
               (case WeakPtr_from_shared sp h of
                  Inl e \<Rightarrow> Inl e
                | Inr (tmp, h1) \<Rightarrow>
                    (case WeakPtr_move_assign False wt tmp h1 of
                       Inl e \<Rightarrow> Inl e
                     | Inr ((wt1, tmp1), h2) \<Rightarrow>
                         (case WeakPtr_Reset tmp1 h2 of
                            Inl e \<Rightarrow> Inl e
                          | Inr (tmp2, h3) \<Rightarrow>
                              Inr (h3\<lparr>objects :=
                                     (objects h3)(a \<mapsto> EsftObject (MakeEsftPtr wt1))\<rparr>))))))"

text \<open>
  \<^verbatim>\<open>explicit SharedPtr(Y* ptr)\<close>. \<open>b\<close> is the address that
  \<^verbatim>\<open>new DefaultBlock<Y>(ptr)\<close> returns; \<open>esft\<close> is the compile-time test
  \<^verbatim>\<open>std::is_convertible_v<Y*, ESFTBase*>\<close>.
\<close>

definition SharedPtr_from_raw :: "addr \<Rightarrow> addr option \<Rightarrow> bool \<Rightarrow> heap \<Rightarrow> SharedPtr result" where
  "SharedPtr_from_raw b ptr esft h =
     (let h0 = store_block b (new_block (DefaultBlock ptr)) h;
          sp = \<lparr>sp_control_block = Some b, sp_ptr = ptr\<rparr> in
      case IncreaseStrongCounter sp h0 of
        Inl e \<Rightarrow> Inl e
      | Inr h1 \<Rightarrow>
          (if esft then
             (case InitWeakThis sp ptr h1 of
                Inl e \<Rightarrow> Inl e
              | Inr h2 \<Rightarrow> Inr (sp, h2))
           else Inr (sp, h1)))"

text \<open>\<^verbatim>\<open>SharedPtr(ControlBlockBase* block, T* ptr)\<close>.\<close>

definition SharedPtr_from_block ::
    "addr option \<Rightarrow> addr option \<Rightarrow> bool \<Rightarrow> heap \<Rightarrow> SharedPtr result" where
  "SharedPtr_from_block block ptr esft h =
     (let sp = \<lparr>sp_control_block = block, sp_ptr = ptr\<rparr> in
      case IncreaseStrongCounter sp h of
        Inl e \<Rightarrow> Inl e
      | Inr h1 \<Rightarrow>
          (if esft then
             (case InitWeakThis sp ptr h1 of
                Inl e \<Rightarrow> Inl e
              | Inr h2 \<Rightarrow> Inr (sp, h2))
           else Inr (sp, h1)))"

definition SharedPtr_copy :: "SharedPtr \<Rightarrow> heap \<Rightarrow> SharedPtr result" where
  "SharedPtr_copy other h =
     (let sp = \<lparr>sp_control_block = sp_control_block other, sp_ptr = sp_ptr other\<rparr> in
      case IncreaseStrongCounter sp h of
        Inl e \<Rightarrow> Inl e
      | Inr h1 \<Rightarrow> Inr (sp, h1))"

text \<open>The move constructor returns the new handle and the moved-from one.\<close>

definition SharedPtr_move :: "SharedPtr \<Rightarrow> SharedPtr \<times> SharedPtr" where
  "SharedPtr_move other =
     (\<lparr>sp_control_block = sp_control_block other, sp_ptr = sp_ptr other\<rparr>,
      other\<lparr>sp_control_block := None, sp_ptr := None\<rparr>)"

text \<open>The aliasing constructor \<^verbatim>\<open>SharedPtr(const SharedPtr<Y>& other, T* ptr)\<close>.\<close>

definition SharedPtr_alias :: "SharedPtr \<Rightarrow> addr option \<Rightarrow> heap \<Rightarrow> SharedPtr result" where
  "SharedPtr_alias other ptr h =
     (let sp0 = \<lparr>sp_control_block = sp_control_block other, sp_ptr = None\<rparr> in
      case IncreaseStrongCounter sp0 h of
        Inl e \<Rightarrow> Inl e
      | Inr h1 \<Rightarrow> Inr (sp0\<lparr>sp_ptr := ptr\<rparr>, h1))"

text \<open>The promotion \<^verbatim>\<open>explicit SharedPtr(const WeakPtr<T>& other)\<close>.\<close>

definition SharedPtr_from_weak :: "WeakPtr \<Rightarrow> heap \<Rightarrow> SharedPtr result" where
  "SharedPtr_from_weak other h =
     (let sp = \<lparr>sp_control_block = wp_control_block other, sp_ptr = wp_ptr other\<rparr> in
      case sp_control_block sp of
        None \<Rightarrow> Inl (NullDeref, h)
      | Some b \<Rightarrow>
          (case blocks h b of
             None \<Rightarrow> Inl (UseAfterFree, h)
           | Some blk \<Rightarrow>
               (if IsDestroyed blk then Inl (BadWeakPtr, h)
                else
                  (case IncreaseStrongCounter sp h of
                     Inl e \<Rightarrow> Inl e
                   | Inr h1 \<Rightarrow> Inr (sp, h1)))))"

definition SharedPtr_Reset :: "SharedPtr \<Rightarrow> heap \<Rightarrow> SharedPtr result" where
  "SharedPtr_Reset sp h =
     (case DecreaseStrongCounter sp h of
        Inl e \<Rightarrow> Inl e
      | Inr h1 \<Rightarrow> Inr (sp\<lparr>sp_control_block := None, sp_ptr := None\<rparr>, h1))"

definition SharedPtr_Swap :: "SharedPtr \<Rightarrow> SharedPtr \<Rightarrow> SharedPtr \<times> SharedPtr" where
  "SharedPtr_Swap sp other =
     (sp\<lparr>sp_control_block := sp_control_block other, sp_ptr := sp_ptr other\<rparr>,
      other\<lparr>sp_control_block := sp_control_block sp, sp_ptr := sp_ptr sp\<rparr>)"

definition SharedPtr_copy_assign ::
    "bool \<Rightarrow> SharedPtr \<Rightarrow> SharedPtr \<Rightarrow> heap \<Rightarrow> SharedPtr result" where
  "SharedPtr_copy_assign same sp other h =
     (if \<not> same then
        (case DecreaseStrongCounter sp h of
           Inl e \<Rightarrow> Inl e
         | Inr h1 \<Rightarrow>
             (let sp1 = sp\<lparr>sp_control_block := sp_control_block other, sp_ptr := sp_ptr other\<rparr> in
              case IncreaseStrongCounter sp1 h1 of
                Inl e \<Rightarrow> Inl e
              | Inr h2 \<Rightarrow> Inr (sp1, h2)))
      else Inr (sp, h))"

definition SharedPtr_move_assign ::
    "bool \<Rightarrow> SharedPtr \<Rightarrow> SharedPtr \<Rightarrow> heap \<Rightarrow> (SharedPtr \<times> SharedPtr) result" where
  "SharedPtr_move_assign same sp other h =
     (if \<not> same then
        (case SharedPtr_Reset sp h of
           Inl e \<Rightarrow> Inl e
         | Inr (sp1, h1) \<Rightarrow> Inr (SharedPtr_Swap sp1 other, h1))
      else Inr ((sp, other), h))"

text \<open>
  \<^verbatim>\<open>MakeShared<T>\<close>: \<open>b\<close> is the address of the new \<^verbatim>\<open>InlineBlock<T>\<close> and
  \<open>a\<close> that of its \<^verbatim>\<open>storage\<close>, where the object is constructed.
\<close>

definition MakeShared :: "addr \<Rightarrow> addr \<Rightarrow> bool \<Rightarrow> heap \<Rightarrow> SharedPtr result" where
  "MakeShared b a esft h =
     (let ob = (if esft then EsftObject WeakPtr_default else PlainObject);
          h0 = (store_block b (new_block (InlineBlock a)) h)
                 \<lparr>objects := (objects h)(a \<mapsto> ob)\<rparr> in
      SharedPtr_from_block (Some b) (Some a) esft h0)"

section \<open>\<^verbatim>\<open>WeakPtr::Lock\<close> and \<^verbatim>\<open>EnableSharedFromThis\<close>\<close>

definition Lock :: "WeakPtr \<Rightarrow> bool \<Rightarrow> heap \<Rightarrow> SharedPtr result" where
  "Lock w esft h =
     (case Expired w h of
        Inl e \<Rightarrow> Inl e
      | Inr ex \<Rightarrow>
          (if \<not> ex then SharedPtr_from_block (wp_control_block w) (wp_ptr w) esft h
           else Inr (SharedPtr_default, h)))"

definition SharedFromThis :: "addr \<Rightarrow> heap \<Rightarrow> SharedPtr result" where
  "SharedFromThis a h =
     (case objects h a of
        None \<Rightarrow> Inl (UseAfterFree, h)
      | Some PlainObject \<Rightarrow> Inl (IllTyped, h)
      | Some (EsftObject wt) \<Rightarrow> SharedPtr_from_weak wt h)"

definition WeakFromThis :: "addr \<Rightarrow> heap \<Rightarrow> WeakPtr result" where
  "WeakFromThis a h =
     (case objects h a of
        None \<Rightarrow> Inl (UseAfterFree, h)
      | Some PlainObject \<Rightarrow> Inl (IllTyped, h)
      | Some (EsftObject wt) \<Rightarrow> WeakPtr_copy wt h)"

definition empty_heap :: heap where
  "empty_heap = \<lparr>blocks = Map.empty, objects = Map.empty, dtor_runs = (\<lambda>a. 0)\<rparr>"

text \<open>\<^verbatim>\<open>GetRawPtr\<close> of the two block variants.\<close>

definition GetRawPtr :: "ControlBlock \<Rightarrow> addr option" where
  "GetRawPtr blk = (case kind blk of DefaultBlock p \<Rightarrow> p | InlineBlock a \<Rightarrow> Some a)"

section \<open>Programs over a set of \<^verbatim>\<open>SharedPtr\<close> handles\<close>

text \<open>
  A program state is the heap together with the live \<^verbatim>\<open>SharedPtr\<close> objects of the
  client, in the order of their construction. An operation names its handles by
  position, so that the address test \<^verbatim>\<open>this != &other\<close> of the assignment
  operators is the comparison of two positions. A position that names no live
  handle makes the program ill-formed. The destructor \<^verbatim>\<open>~SharedPtr()\<close> calls
  \<^verbatim>\<open>Reset()\<close>, after which the handle is no longer live.
\<close>

record pstate =
  mem :: heap
  handles :: "SharedPtr list"

datatype op =
    OpDefault
  | OpNullptr
  | OpCopy nat
  | OpMove nat
  | OpAlias nat "addr option"
  | OpCopyAssign nat nat
  | OpMoveAssign nat nat
  | OpReset nat
  | OpSwap nat nat
  | OpDestructor nat

fun step :: "op \<Rightarrow> pstate \<Rightarrow> (error \<times> heap) + pstate" where
  "step OpDefault s = Inr (s\<lparr>handles := handles s @ [SharedPtr_default]\<rparr>)"
| "step OpNullptr s = Inr (s\<lparr>handles := handles s @ [SharedPtr_nullptr]\<rparr>)"
| "step (OpCopy i) s =
     (if i < length (handles s) then
        (case SharedPtr_copy (handles s ! i) (mem s) of
           Inl e \<Rightarrow> Inl e
         | Inr (sp, h) \<Rightarrow> Inr \<lparr>mem = h, handles = handles s @ [sp]\<rparr>)
      else Inl (IllFormed, mem s))"
| "step (OpMove i) s =
     (if i < length (handles s) then
        (case SharedPtr_move (handles s ! i) of
           (sp, other) \<Rightarrow> Inr (s\<lparr>handles := (handles s)[i := other] @ [sp]\<rparr>))
      else Inl (IllFormed, mem s))"
| "step (OpAlias i p) s =
     (if i < length (handles s) then
        (case SharedPtr_alias (handles s ! i) p (mem s) of
           Inl e \<Rightarrow> Inl e
         | Inr (sp, h) \<Rightarrow> Inr \<lparr>mem = h, handles = handles s @ [sp]\<rparr>)
      else Inl (IllFormed, mem s))"
| "step (OpCopyAssign i j) s =
     (if i < length (handles s) \<and> j < length (handles s) then
        (case SharedPtr_copy_assign (i = j) (handles s ! i) (handles s ! j) (mem s) of
           Inl e \<Rightarrow> Inl e
         | Inr (sp, h) \<Rightarrow> Inr \<lparr>mem = h, handles = (handles s)[i := sp]\<rparr>)
      else Inl (IllFormed, mem s))"
| "step (OpMoveAssign i j) s =
     (if i < length (handles s) \<and> j < length (handles s) then
        (case SharedPtr_move_assign (i = j) (handles s ! i) (handles s ! j) (mem s) of
           Inl e \<Rightarrow> Inl e
         | Inr ((sp, other), h) \<Rightarrow>
             Inr \<lparr>mem = h, handles = ((handles s)[i := sp])[j := other]\<rparr>)
      else Inl (IllFormed, mem s))"
| "step (OpReset i) s =
     (if i < length (handles s) then
        (case SharedPtr_Reset (handles s ! i) (mem s) of
           Inl e \<Rightarrow> Inl e
         | Inr (sp, h) \<Rightarrow> Inr \<lparr>mem = h, handles = (handles s)[i := sp]\<rparr>)
      else Inl (IllFormed, mem s))"
| "step (OpSwap i j) s =
     (if i < length (handles s) \<and> j < length (handles s) then
        (case SharedPtr_Swap (handles s ! i) (handles s ! j) of
           (sp, other) \<Rightarrow> Inr (s\<lparr>handles := ((handles s)[i := sp])[j := other]\<rparr>))
      else Inl (IllFormed, mem s))"
| "step (OpDestructor i) s =
     (if i < length (handles s) then
        (case SharedPtr_Reset (handles s ! i) (mem s) of
           Inl e \<Rightarrow> Inl e
         | Inr (sp, h) \<Rightarrow>
             Inr \<lparr>mem = h, handles = take i (handles s) @ drop (Suc i) (handles s)\<rparr>)
      else Inl (IllFormed, mem s))"

fun exec :: "op list \<Rightarrow> pstate \<Rightarrow> (error \<times> heap) + pstate" where
  "exec [] s = Inr s"
| "exec (x # xs) s = (case step x s of Inl e \<Rightarrow> Inl e | Inr s' \<Rightarrow> exec xs s')"

text \<open>The number of live handles that reference the block at \<open>b\<close>.\<close>

definition live_refs :: "addr \<Rightarrow> SharedPtr list \<Rightarrow> nat" where
  "live_refs b hs = length (filter (\<lambda>sp. sp_control_block sp = Some b) hs)"

text \<open>
  The block at \<open>b\<close> accounts for \<open>n\<close> owners: unless \<open>n\<close> is 0, the block is
  allocated, its object is not destroyed, and its strong counter is \<open>n\<close>.
\<close>

definition counted :: "addr \<Rightarrow> nat \<Rightarrow> heap \<Rightarrow> bool" where
  "counted b n h =
     (if n = 0 then True
      else (case blocks h b of
              None \<Rightarrow> False
            | Some blk \<Rightarrow> \<not> is_destroyed blk \<and> strong_ref_cnt blk = of_nat n))"

text \<open>
  The handles of a state share the block at \<open>b\<close>: each is null or references
  \<open>b\<close>, and the block accounts for exactly the handles that reference it.
\<close>

definition shares_block :: "addr \<Rightarrow> pstate \<Rightarrow> bool" where
  "shares_block b s =
     (list_all (\<lambda>sp. sp_control_block sp = None \<or> sp_control_block sp = Some b) (handles s)
      \<and> counted b (live_refs b (handles s)) (mem s))"

text \<open>
  What \<^verbatim>\<open>UseCount()\<close> is to report on every live handle: 0 on a null handle, the
  number of live handles on the block otherwise.
\<close>

definition use_counts_exact :: "addr \<Rightarrow> pstate \<Rightarrow> bool" where
  "use_counts_exact b s =
     list_all
       (\<lambda>sp. case UseCount sp (mem s) of
               Inl e \<Rightarrow> False
             | Inr n \<Rightarrow>
                 unat n = (if sp_control_block sp = None then 0
                           else live_refs b (handles s)))
       (handles s)"

text \<open>The invariant stated by the specification for a handle.\<close>

definition ptr_null_iff_block_null :: "SharedPtr \<Rightarrow> bool" where
  "ptr_null_iff_block_null sp = ((sp_ptr sp = None) = (sp_control_block sp = None))"

text \<open>
  A heap in which a block without owners has had its object destroyed: the
  strong counter of an allocated block is zero only if the block is marked
  destroyed.
\<close>

definition unowned_is_destroyed :: "heap \<Rightarrow> bool" where
  "unowned_is_destroyed h =
     (\<forall>b blk. blocks h b = Some blk \<longrightarrow> strong_ref_cnt blk = 0 \<longrightarrow> is_destroyed blk)"

section \<open>An example state\<close>

text \<open>
  The heap after \<^verbatim>\<open>SharedPtr<int> p(new int); WeakPtr<int> w(p);\<close>, with the
  object at address 3 and its control block at address 7.
\<close>

definition ex_block :: ControlBlock where
  "ex_block = \<lparr>strong_ref_cnt = 1, weak_ref_cnt = 1, is_destroyed = False,
                kind = DefaultBlock (Some 3)\<rparr>"

definition ex_heap :: heap where
  "ex_heap = \<lparr>blocks = [7 \<mapsto> ex_block], objects = [3 \<mapsto> PlainObject],
               dtor_runs = (\<lambda>a. 0)\<rparr>"

definition ex_shared :: SharedPtr where
  "ex_shared = \<lparr>sp_control_block = Some 7, sp_ptr = Some 3\<rparr>"

definition ex_weak :: WeakPtr where
  "ex_weak = \<lparr>wp_control_block = Some 7, wp_ptr = Some 3, is_esft_ptr = False\<rparr>"

text \<open>The same block once its object has been destroyed while \<open>ex_weak\<close> lives on.\<close>

definition ex_block_destroyed :: ControlBlock where
  "ex_block_destroyed = \<lparr>strong_ref_cnt = 0, weak_ref_cnt = 1, is_destroyed = True,
                          kind = DefaultBlock (Some 3)\<rparr>"

definition ex_heap_destroyed :: heap where
  "ex_heap_destroyed = \<lparr>blocks = [7 \<mapsto> ex_block_destroyed], objects = Map.empty,
                         dtor_runs = (\<lambda>a. if a = 3 then 1 else 0)\<rparr>"

text \<open>
  An object deriving from \<^verbatim>\<open>EnableSharedFromThis\<close> at address 3 that no
  \<^verbatim>\<open>SharedPtr\<close> has wrapped yet: its \<^verbatim>\<open>weak_this_\<close> is default-constructed.
\<close>

definition ex_heap_unwrapped :: heap where
  "ex_heap_unwrapped = \<lparr>blocks = Map.empty, objects = [3 \<mapsto> EsftObject WeakPtr_default],
                         dtor_runs = (\<lambda>a. 0)\<rparr>"

text \<open>
  The heap in the middle of \<^verbatim>\<open>Destroy()\<close> of the last \<^verbatim>\<open>SharedPtr\<close> to an
  \<^verbatim>\<open>EnableSharedFromThis\<close> object that no other \<^verbatim>\<open>WeakPtr\<close> observes: the
  block is marked destroyed and the object's destructor is about to reset the
  embedded \<^verbatim>\<open>weak_this_\<close>, which is \<open>ex_weak_this\<close>.
\<close>

definition ex_weak_this :: WeakPtr where
  "ex_weak_this = \<lparr>wp_control_block = Some 7, wp_ptr = Some 3, is_esft_ptr = True\<rparr>"

definition ex_heap_teardown :: heap where
  "ex_heap_teardown = \<lparr>blocks = [7 \<mapsto> ex_block_destroyed],
                        objects = [3 \<mapsto> EsftObject ex_weak_this],
                        dtor_runs = (\<lambda>a. if a = 3 then 1 else 0)\<rparr>"

text \<open>
  The heap after \<^verbatim>\<open>SharedPtr<T> p(new T); WeakPtr<T> w = p->WeakFromThis();\<close>
  for a \<^verbatim>\<open>T\<close> deriving from \<^verbatim>\<open>EnableSharedFromThis<T>\<close>: the weak counter
  accounts for the embedded \<^verbatim>\<open>weak_this_\<close> and for \<open>ex_weak\<close>.
\<close>

definition ex_block_esft :: ControlBlock where
  "ex_block_esft = \<lparr>strong_ref_cnt = 1, weak_ref_cnt = 2, is_destroyed = False,
                     kind = DefaultBlock (Some 3)\<rparr>"

definition ex_heap_esft :: heap where
  "ex_heap_esft = \<lparr>blocks = [7 \<mapsto> ex_block_esft], objects = [3 \<mapsto> EsftObject ex_weak_this],
                    dtor_runs = (\<lambda>a. 0)\<rparr>"

text \<open>
  The heap after \<^verbatim>\<open>SharedPtr<T> p(new T); SharedPtr<T> a(p, (T*)nullptr);
  WeakPtr<T> w(a);\<close> for a \<^verbatim>\<open>T\<close> deriving from \<^verbatim>\<open>EnableSharedFromThis<T>\<close>:
  \<open>ex_alias_null\<close> is \<^verbatim>\<open>a\<close>, which shares the block and stores a null pointer,
  and \<open>ex_weak_null\<close> is \<^verbatim>\<open>w\<close>.
\<close>

definition ex_alias_null :: SharedPtr where
  "ex_alias_null = \<lparr>sp_control_block = Some 7, sp_ptr = None\<rparr>"

definition ex_weak_null :: WeakPtr where
  "ex_weak_null = \<lparr>wp_control_block = Some 7, wp_ptr = None, is_esft_ptr = False\<rparr>"

definition ex_block_aliased :: ControlBlock where
  "ex_block_aliased = \<lparr>strong_ref_cnt = 2, weak_ref_cnt = 2, is_destroyed = False,
                        kind = DefaultBlock (Some 3)\<rparr>"

definition ex_heap_aliased :: heap where
  "ex_heap_aliased = \<lparr>blocks = [7 \<mapsto> ex_block_aliased],
                       objects = [3 \<mapsto> EsftObject ex_weak_this], dtor_runs = (\<lambda>a. 0)\<rparr>"

lemmas ex_defs = ex_block_def ex_heap_def ex_shared_def ex_weak_def ex_block_destroyed_def
  ex_heap_destroyed_def ex_heap_unwrapped_def ex_weak_this_def ex_heap_teardown_def
  ex_block_esft_def ex_heap_esft_def ex_alias_null_def ex_weak_null_def ex_block_aliased_def
  ex_heap_aliased_def

lemmas cb_defs = IncStrongRef_def DecStrongRef_def GetStrongCounter_def IncWeakRef_def
  DecWeakRef_def GetWeakCounter_def GetAllCounter_def IsDestroyed_def CanDeleteControlBlock_def
  store_block_def delete_block_def new_block_def

section \<open>Counter arithmetic\<close>

text \<open>
  The counters wrap at \<open>2 ^ 64\<close>. These facts say when a counter, or the sum that
  \<^verbatim>\<open>GetAllCounter\<close> forms, is different from zero.
\<close>

lemma of_nat_size_t_nonzero:
  assumes "0 < m" "m < 2 ^ 64"
  shows "(of_nat m :: size_t) \<noteq> 0"
proof -
  have "\<not> (2 ^ 64 dvd m)"
  proof
    assume "2 ^ 64 dvd m"
    then have "(2::nat) ^ 64 \<le> m" using assms(1) by (intro dvd_imp_le) auto
    with assms(2) show False by linarith
  qed
  then show ?thesis by (simp add: word_of_nat_eq_0_iff)
qed

lemma size_t_sum_nonzero:
  fixes s w :: size_t
  assumes "unat s + unat w + 1 < 2 ^ 64"
  shows "s + 1 + w \<noteq> 0"
proof
  assume z: "s + 1 + w = 0"
  have "unat s + unat (1 :: size_t) < 2 ^ 64" using assms by simp
  then have s1: "unat (s + 1) = unat s + 1" by (simp add: unat_add_lem[THEN iffD1])
  have "unat (s + 1) + unat w < 2 ^ 64" using assms s1 by simp
  then have "unat (s + 1 + w) = unat s + 1 + unat w" using s1 by (simp add: unat_add_lem[THEN iffD1])
  with z show False by simp
qed


section \<open>What the constructors return\<close>

lemma from_raw_plain:
  "SharedPtr_from_raw b ptr False h =
     Inr (\<lparr>sp_control_block = Some b, sp_ptr = ptr\<rparr>,
          store_block b ((new_block (DefaultBlock ptr))\<lparr>strong_ref_cnt := 1\<rparr>) h)"
  by (simp add: SharedPtr_from_raw_def IncreaseStrongCounter_def store_block_def
      IncStrongRef_def new_block_def)

lemma MakeShared_Inr:
  "MakeShared b a esft h = Inr (sp, h') \<Longrightarrow> sp = \<lparr>sp_control_block = Some b, sp_ptr = Some a\<rparr>"
  by (auto simp: MakeShared_def SharedPtr_from_block_def Let_def split: sum.splits if_splits)

lemma SharedPtr_from_raw_Inr:
  "SharedPtr_from_raw b p esft h = Inr (sp, h') \<Longrightarrow> sp = \<lparr>sp_control_block = Some b, sp_ptr = p\<rparr>"
  by (auto simp: SharedPtr_from_raw_def Let_def split: sum.splits if_splits)

lemma SharedPtr_from_weak_Inr:
  "SharedPtr_from_weak w h = Inr (sp, h')
     \<Longrightarrow> sp = \<lparr>sp_control_block = wp_control_block w, sp_ptr = wp_ptr w\<rparr>
         \<and> wp_control_block w \<noteq> None"
  by (auto simp: SharedPtr_from_weak_def Let_def split: sum.splits if_splits option.splits)

lemma SharedPtr_alias_fields:
  "SharedPtr_alias other p h = Inr (sp, h')
     \<Longrightarrow> sp = \<lparr>sp_control_block = sp_control_block other, sp_ptr = p\<rparr>"
  by (auto simp: SharedPtr_alias_def Let_def split: sum.splits)

lemma SharedPtr_copy_fields:
  "SharedPtr_copy other h = Inr (sp, h')
     \<Longrightarrow> sp = \<lparr>sp_control_block = sp_control_block other, sp_ptr = sp_ptr other\<rparr>"
  by (auto simp: SharedPtr_copy_def Let_def split: sum.splits)

lemma InitWeakThis_keeps_block:
  assumes "InitWeakThis sp p h = Inr h'" and "sp_control_block sp = Some b"
    and "blocks h b = Some blk" and "strong_ref_cnt blk + weak_ref_cnt blk \<noteq> 0"
  shows "\<exists>blk'. blocks h' b = Some blk' \<and> strong_ref_cnt blk' = strong_ref_cnt blk
           \<and> is_destroyed blk' = is_destroyed blk \<and> kind blk' = kind blk"
  using assms
  by (auto simp: InitWeakThis_def WeakPtr_from_shared_def WeakPtr_move_assign_def
      WeakPtr_Swap_def WeakPtr_Reset_def DecreaseWeakCounter_def IncreaseWeakCounter_def
      cb_defs Let_def
      split: option.splits object.splits sum.splits if_splits prod.splits)

section \<open>\<^verbatim>\<open>UseCount\<close> counts the live handles\<close>

subsection \<open>Counting the handles on a block\<close>

lemma live_refs_append:
  "live_refs b (hs @ [sp]) = live_refs b hs + (if sp_control_block sp = Some b then 1 else 0)"
  by (simp add: live_refs_def)

lemma live_refs_update:
  assumes "i < length hs"
  shows "live_refs b (hs[i := sp]) + (if sp_control_block (hs ! i) = Some b then 1 else 0)
         = live_refs b hs + (if sp_control_block sp = Some b then 1 else 0)"
proof -
  have a: "hs = take i hs @ (hs ! i) # drop (Suc i) hs"
    using assms by (simp add: id_take_nth_drop)
  have b: "hs[i := sp] = take i hs @ sp # drop (Suc i) hs"
    using assms by (simp add: upd_conv_take_nth_drop)
  have "live_refs b hs = live_refs b (take i hs) + (if sp_control_block (hs ! i) = Some b then 1 else 0)
          + live_refs b (drop (Suc i) hs)"
    by (subst a) (simp add: live_refs_def)
  moreover have "live_refs b (hs[i := sp]) = live_refs b (take i hs) + (if sp_control_block sp = Some b then 1 else 0)
          + live_refs b (drop (Suc i) hs)"
    by (subst b) (simp add: live_refs_def)
  ultimately show ?thesis by simp
qed

lemma live_refs_remove:
  assumes "i < length hs"
  shows "live_refs b (take i hs @ drop (Suc i) hs) + (if sp_control_block (hs ! i) = Some b then 1 else 0)
         = live_refs b hs"
proof -
  have a: "hs = take i hs @ (hs ! i) # drop (Suc i) hs"
    using assms by (simp add: id_take_nth_drop)
  have "live_refs b hs = live_refs b (take i hs) + (if sp_control_block (hs ! i) = Some b then 1 else 0)
          + live_refs b (drop (Suc i) hs)"
    by (subst a) (simp add: live_refs_def)
  then show ?thesis by (simp add: live_refs_def)
qed

lemma live_refs_le: "live_refs b hs \<le> length hs"
  by (simp add: live_refs_def)

lemma live_refs_pos:
  "i < length hs \<Longrightarrow> sp_control_block (hs ! i) = Some b \<Longrightarrow> 0 < live_refs b hs"
  by (auto simp: live_refs_def filter_empty_conv)

subsection \<open>Incrementing and decrementing the strong counter\<close>

text \<open>
  A copy adds one owner. A release that is not the last one only decrements the
  counter; the last one runs \<^verbatim>\<open>Destroy()\<close>, after which nothing is claimed about
  the block, since no owner is left.
\<close>

lemma counted_inc:
  assumes "counted b n h" "0 < n" "sp_control_block sp = Some b"
  shows "\<exists>h'. IncreaseStrongCounter sp h = Inr h' \<and> counted b (Suc n) h'"
proof -
  from assms(1,2) obtain blk where blk: "blocks h b = Some blk" "\<not> is_destroyed blk"
      "strong_ref_cnt blk = of_nat n"
    by (cases "blocks h b") (simp_all add: counted_def)
  have "IncreaseStrongCounter sp h = Inr (store_block b (IncStrongRef blk) h)"
    using blk assms(3) by (simp add: IncreaseStrongCounter_def)
  moreover have "counted b (Suc n) (store_block b (IncStrongRef blk) h)"
    using blk by (simp add: counted_def store_block_def IncStrongRef_def)
  ultimately show ?thesis by blast
qed

lemma counted_dec:
  assumes "counted b n h" "0 < n" "n < 2 ^ 64" "sp_control_block sp = Some b"
    and "DecreaseStrongCounter sp h = Inr h'"
  shows "counted b (n - 1) h'"
proof (cases "n = 1")
  case True
  then show ?thesis by (simp add: counted_def)
next
  case False
  with assms(2) obtain m where n: "n = Suc m" and m: "0 < m" by (cases n) auto
  from assms(3) n have mb: "m < 2 ^ 64" by simp
  from assms(1,2) obtain blk where blk: "blocks h b = Some blk" "\<not> is_destroyed blk"
      "strong_ref_cnt blk = of_nat n"
    by (cases "blocks h b") (simp_all add: counted_def)
  have dec: "strong_ref_cnt blk - 1 = of_nat m" using blk(3) n by simp
  have nz: "strong_ref_cnt blk - 1 \<noteq> 0"
    unfolding dec by (rule of_nat_size_t_nonzero[OF m mb])
  have "DecreaseStrongCounter sp h = Inr (store_block b (DecStrongRef blk) h)"
    using blk(1) assms(4) nz
    by (simp add: DecreaseStrongCounter_def DecStrongRef_def GetStrongCounter_def)
  with assms(5) have "h' = store_block b (DecStrongRef blk) h" by simp
  then show ?thesis
    using blk(2) dec m n
    by (simp add: counted_def store_block_def DecStrongRef_def)
qed

lemma null_inc: "sp_control_block sp = None \<Longrightarrow> IncreaseStrongCounter sp h = Inr h"
  by (simp add: IncreaseStrongCounter_def)

lemma null_dec: "sp_control_block sp = None \<Longrightarrow> DecreaseStrongCounter sp h = Inr h"
  by (simp add: DecreaseStrongCounter_def)

lemma counted_acquire:
  assumes "counted b n h"
    and "sp_control_block sp = None \<or> sp_control_block sp = Some b"
    and "sp_control_block sp = Some b \<Longrightarrow> 0 < n"
    and "IncreaseStrongCounter sp h = Inr h'"
  shows "counted b (n + (if sp_control_block sp = Some b then 1 else 0)) h'"
proof (cases "sp_control_block sp = Some b")
  case True
  with assms(1,3) obtain h2 where "IncreaseStrongCounter sp h = Inr h2" "counted b (Suc n) h2"
    using counted_inc by blast
  with assms(4) True show ?thesis by simp
next
  case False
  with assms(2) have "sp_control_block sp = None" by simp
  with assms(1,4) False show ?thesis by (simp add: null_inc)
qed

lemma counted_release:
  assumes "counted b n h"
    and "sp_control_block sp = None \<or> sp_control_block sp = Some b"
    and "sp_control_block sp = Some b \<Longrightarrow> 0 < n"
    and "n < 2 ^ 64"
    and "DecreaseStrongCounter sp h = Inr h'"
  shows "counted b (n - (if sp_control_block sp = Some b then 1 else 0)) h'"
proof (cases "sp_control_block sp = Some b")
  case True
  with assms(1,3,4,5) have "counted b (n - 1) h'" by (intro counted_dec) auto
  with True show ?thesis by simp
next
  case False
  with assms(2) have "sp_control_block sp = None" by simp
  with assms(1,5) False show ?thesis by (simp add: null_dec)
qed

lemma shares_blockI:
  assumes "\<And>sp. sp \<in> set hs \<Longrightarrow> sp_control_block sp = None \<or> sp_control_block sp = Some b"
    and "counted b (live_refs b hs) h"
  shows "shares_block b \<lparr>mem = h, handles = hs\<rparr>"
  using assms by (simp add: shares_block_def list_all_iff)

lemma shares_blockD:
  assumes "shares_block b \<lparr>mem = h, handles = hs\<rparr>"
  shows "\<And>sp. sp \<in> set hs \<Longrightarrow> sp_control_block sp = None \<or> sp_control_block sp = Some b"
    and "counted b (live_refs b hs) h"
  using assms by (simp_all add: shares_block_def list_all_iff)

subsection \<open>The handle list under the operations\<close>

lemma release_at:
  assumes inv: "shares_block b \<lparr>mem = h, handles = hs\<rparr>"
    and i: "i < length hs" and bound: "length hs < 2 ^ 64"
    and dec: "DecreaseStrongCounter (hs ! i) h = Inr h'"
    and null: "sp_control_block sp = None"
  shows "shares_block b \<lparr>mem = h', handles = hs[i := sp]\<rparr>"
proof (rule shares_blockI)
  fix x assume "x \<in> set (hs[i := sp])"
  then have "x = sp \<or> x \<in> set hs" using set_update_subset_insert[of hs i sp] by auto
  with null shares_blockD(1)[OF inv]
  show "sp_control_block x = None \<or> sp_control_block x = Some b" by auto
next
  let ?d = "if sp_control_block (hs ! i) = Some b then 1 else 0 :: nat"
  have ok: "sp_control_block (hs ! i) = None \<or> sp_control_block (hs ! i) = Some b"
    using shares_blockD(1)[OF inv] i by simp
  have n: "live_refs b hs < 2 ^ 64" using live_refs_le[of b hs] bound by linarith
  have "counted b (live_refs b hs - ?d) h'"
    using counted_release[OF shares_blockD(2)[OF inv] ok _ n dec] live_refs_pos[OF i] by blast
  moreover have "live_refs b (hs[i := sp]) = live_refs b hs - ?d"
    using live_refs_update[OF i, of b sp] null by simp
  ultimately show "counted b (live_refs b (hs[i := sp])) h'" by simp
qed

lemma acquire_new:
  assumes inv: "shares_block b \<lparr>mem = h, handles = hs\<rparr>"
    and j: "j < length hs"
    and blk: "sp_control_block sp = sp_control_block (hs ! j)"
    and inc: "IncreaseStrongCounter sp h = Inr h'"
    and that: "sp_control_block sp' = sp_control_block sp"
  shows "shares_block b \<lparr>mem = h', handles = hs @ [sp']\<rparr>"
proof (rule shares_blockI)
  have ok: "sp_control_block sp = None \<or> sp_control_block sp = Some b"
    using shares_blockD(1)[OF inv] j blk by simp
  fix x assume "x \<in> set (hs @ [sp'])"
  with ok that shares_blockD(1)[OF inv]
  show "sp_control_block x = None \<or> sp_control_block x = Some b" by auto
next
  have ok: "sp_control_block sp = None \<or> sp_control_block sp = Some b"
    using shares_blockD(1)[OF inv] j blk by simp
  have "counted b (live_refs b hs + (if sp_control_block sp = Some b then 1 else 0)) h'"
    using counted_acquire[OF shares_blockD(2)[OF inv] ok _ inc] live_refs_pos[OF j] blk by simp
  then show "counted b (live_refs b (hs @ [sp'])) h'"
    using that by (simp add: live_refs_append)
qed

lemma acquire_at:
  assumes inv: "shares_block b \<lparr>mem = h, handles = hs\<rparr>"
    and i: "i < length hs" and j: "j < length hs"
    and null: "sp_control_block (hs ! i) = None"
    and blk: "sp_control_block sp = sp_control_block (hs ! j)"
    and inc: "IncreaseStrongCounter sp h = Inr h'"
  shows "shares_block b \<lparr>mem = h', handles = hs[i := sp]\<rparr>"
proof (rule shares_blockI)
  have ok: "sp_control_block sp = None \<or> sp_control_block sp = Some b"
    using shares_blockD(1)[OF inv] j blk by simp
  fix x assume "x \<in> set (hs[i := sp])"
  then have "x = sp \<or> x \<in> set hs" using set_update_subset_insert[of hs i sp] by auto
  with ok shares_blockD(1)[OF inv]
  show "sp_control_block x = None \<or> sp_control_block x = Some b" by auto
next
  have ok: "sp_control_block sp = None \<or> sp_control_block sp = Some b"
    using shares_blockD(1)[OF inv] j blk by simp
  have "counted b (live_refs b hs + (if sp_control_block sp = Some b then 1 else 0)) h'"
    using counted_acquire[OF shares_blockD(2)[OF inv] ok _ inc] live_refs_pos[OF j] blk by simp
  moreover have "live_refs b (hs[i := sp]) = live_refs b hs + (if sp_control_block sp = Some b then 1 else 0)"
    using live_refs_update[OF i, of b sp] null by simp
  ultimately show "counted b (live_refs b (hs[i := sp])) h'" by simp
qed

lemma exchange_at:
  assumes inv: "shares_block b \<lparr>mem = h, handles = hs\<rparr>"
    and i: "i < length hs" and j: "j < length hs"
    and x: "sp_control_block x = sp_control_block (hs ! j)"
    and y: "sp_control_block y = sp_control_block (hs ! i)"
  shows "shares_block b \<lparr>mem = h, handles = (hs[i := x])[j := y]\<rparr>"
proof (rule shares_blockI)
  fix z assume "z \<in> set ((hs[i := x])[j := y])"
  then have "z = y \<or> z = x \<or> z \<in> set hs"
    using set_update_subset_insert[of "hs[i := x]" j y] set_update_subset_insert[of hs i x] by auto
  moreover have "hs ! i \<in> set hs" "hs ! j \<in> set hs" using i j by simp_all
  ultimately show "sp_control_block z = None \<or> sp_control_block z = Some b"
    using shares_blockD(1)[OF inv] x y by metis
next
  have j': "j < length (hs[i := x])" using j by simp
  have "live_refs b ((hs[i := x])[j := y]) = live_refs b hs"
    using live_refs_update[OF j', of b y] live_refs_update[OF i, of b x] x y i j
    by (cases "i = j") (auto split: if_splits)
  with shares_blockD(2)[OF inv]
  show "counted b (live_refs b ((hs[i := x])[j := y])) h" by simp
qed

lemma move_out:
  assumes inv: "shares_block b \<lparr>mem = h, handles = hs\<rparr>"
    and i: "i < length hs"
    and x: "sp_control_block x = sp_control_block (hs ! i)"
    and y: "sp_control_block y = None"
  shows "shares_block b \<lparr>mem = h, handles = hs[i := y] @ [x]\<rparr>"
proof (rule shares_blockI)
  fix z assume "z \<in> set (hs[i := y] @ [x])"
  then have "z = y \<or> z = x \<or> z \<in> set hs"
    using set_update_subset_insert[of hs i y] by auto
  moreover have "hs ! i \<in> set hs" using i by simp
  ultimately show "sp_control_block z = None \<or> sp_control_block z = Some b"
    using shares_blockD(1)[OF inv] x y by metis
next
  have "live_refs b (hs[i := y] @ [x]) = live_refs b hs"
    using live_refs_update[OF i, of b y] x y by (auto simp: live_refs_append split: if_splits)
  with shares_blockD(2)[OF inv]
  show "counted b (live_refs b (hs[i := y] @ [x])) h" by simp
qed

lemma remove_null:
  assumes inv: "shares_block b \<lparr>mem = h, handles = hs\<rparr>"
    and i: "i < length hs"
    and null: "sp_control_block (hs ! i) = None"
  shows "shares_block b \<lparr>mem = h, handles = take i hs @ drop (Suc i) hs\<rparr>"
proof (rule shares_blockI)
  fix z assume "z \<in> set (take i hs @ drop (Suc i) hs)"
  then have "z \<in> set hs" by (auto dest: in_set_takeD in_set_dropD)
  then show "sp_control_block z = None \<or> sp_control_block z = Some b"
    using shares_blockD(1)[OF inv] by simp
next
  have "live_refs b (take i hs @ drop (Suc i) hs) = live_refs b hs"
    using live_refs_remove[OF i, of b] null by simp
  with shares_blockD(2)[OF inv]
  show "counted b (live_refs b (take i hs @ drop (Suc i) hs)) h" by simp
qed

lemma append_null:
  assumes inv: "shares_block b \<lparr>mem = h, handles = hs\<rparr>"
    and null: "sp_control_block sp = None"
  shows "shares_block b \<lparr>mem = h, handles = hs @ [sp]\<rparr>"
proof (rule shares_blockI)
  fix z assume "z \<in> set (hs @ [sp])"
  then show "sp_control_block z = None \<or> sp_control_block z = Some b"
    using shares_blockD(1)[OF inv] null by auto
next
  show "counted b (live_refs b (hs @ [sp])) h"
    using shares_blockD(2)[OF inv] null by (simp add: live_refs_append)
qed

subsection \<open>Every operation keeps the handles in step with the counter\<close>

lemma SharedPtr_copy_Inr:
  assumes "SharedPtr_copy other h = Inr (sp, h')"
  shows "sp_control_block sp = sp_control_block other" "IncreaseStrongCounter sp h = Inr h'"
  using assms by (auto simp: SharedPtr_copy_def Let_def split: sum.splits)

lemma SharedPtr_alias_Inr:
  assumes "SharedPtr_alias other p h = Inr (sp, h')"
  shows "sp_control_block sp = sp_control_block other"
    "IncreaseStrongCounter \<lparr>sp_control_block = sp_control_block other, sp_ptr = None\<rparr> h = Inr h'"
  using assms by (auto simp: SharedPtr_alias_def Let_def split: sum.splits)

lemma SharedPtr_Reset_Inr:
  assumes "SharedPtr_Reset sp h = Inr (sp', h')"
  shows "sp_control_block sp' = None" "DecreaseStrongCounter sp h = Inr h'"
  using assms by (auto simp: SharedPtr_Reset_def split: sum.splits)

lemma SharedPtr_copy_assign_Inr:
  assumes "SharedPtr_copy_assign False sp other h = Inr (sp', h')"
  shows "\<exists>h1. DecreaseStrongCounter sp h = Inr h1 \<and> IncreaseStrongCounter sp' h1 = Inr h'"
    "sp_control_block sp' = sp_control_block other"
  using assms by (auto simp: SharedPtr_copy_assign_def Let_def split: sum.splits)

lemma SharedPtr_move_assign_Inr:
  assumes "SharedPtr_move_assign False sp other h = Inr ((sp', other'), h')"
  shows "DecreaseStrongCounter sp h = Inr h'" "sp_control_block sp' = sp_control_block other"
    "sp_control_block other' = None"
  using assms
  by (auto simp: SharedPtr_move_assign_def SharedPtr_Reset_def SharedPtr_Swap_def
      split: sum.splits)

lemma step_shares_block:
  assumes inv: "shares_block b s" and bound: "length (handles s) < 2 ^ 64"
    and st: "step x s = Inr s'"
  shows "shares_block b s' \<and> length (handles s') \<le> Suc (length (handles s))"
proof -
  obtain h hs where s: "s = \<lparr>mem = h, handles = hs\<rparr>" by (cases s) auto
  note inv' = inv[unfolded s]
  have len: "length hs < 2 ^ 64" using bound s by simp
  let ?null = "\<lparr>sp_control_block = None, sp_ptr = None\<rparr>"
  show ?thesis
  proof (cases x)
    case OpDefault
    then show ?thesis using st s append_null[OF inv', of SharedPtr_default]
      by (auto simp: SharedPtr_default_def)
  next
    case OpNullptr
    then show ?thesis using st s append_null[OF inv', of SharedPtr_nullptr]
      by (auto simp: SharedPtr_nullptr_def)
  next
    case (OpCopy i)
    with st s obtain sp h' where i: "i < length hs"
      and c: "SharedPtr_copy (hs ! i) h = Inr (sp, h')"
      and s': "s' = \<lparr>mem = h', handles = hs @ [sp]\<rparr>"
      by (auto split: if_splits sum.splits)
    show ?thesis
      using acquire_new[OF inv' i SharedPtr_copy_Inr[OF c] refl] s' s by simp
  next
    case (OpMove i)
    with st s have i: "i < length hs"
      and s': "s' = \<lparr>mem = h, handles = hs[i := (hs ! i)\<lparr>sp_control_block := None, sp_ptr := None\<rparr>]
          @ [\<lparr>sp_control_block = sp_control_block (hs ! i), sp_ptr = sp_ptr (hs ! i)\<rparr>]\<rparr>"
      by (auto simp: SharedPtr_move_def split: if_splits)
    show ?thesis unfolding s' using move_out[OF inv' i] s by simp
  next
    case (OpAlias i p)
    with st s obtain sp h' where i: "i < length hs"
      and c: "SharedPtr_alias (hs ! i) p h = Inr (sp, h')"
      and s': "s' = \<lparr>mem = h', handles = hs @ [sp]\<rparr>"
      by (auto split: if_splits sum.splits)
    show ?thesis
      using acquire_new[OF inv' i _ SharedPtr_alias_Inr(2)[OF c], of sp]
        SharedPtr_alias_Inr(1)[OF c] s' s by simp
  next
    case (OpCopyAssign i j)
    show ?thesis
    proof (cases "i = j")
      case True
      with OpCopyAssign st s inv show ?thesis
        by (auto simp: SharedPtr_copy_assign_def split: if_splits)
    next
      case False
      with OpCopyAssign st s obtain sp h' where i: "i < length hs" and j: "j < length hs"
        and c: "SharedPtr_copy_assign False (hs ! i) (hs ! j) h = Inr (sp, h')"
        and s': "s' = \<lparr>mem = h', handles = hs[i := sp]\<rparr>"
        by (auto split: if_splits sum.splits)
      from SharedPtr_copy_assign_Inr(1)[OF c] obtain h1 where
        d: "DecreaseStrongCounter (hs ! i) h = Inr h1" and a: "IncreaseStrongCounter sp h1 = Inr h'"
        by blast
      have r: "shares_block b \<lparr>mem = h1, handles = hs[i := ?null]\<rparr>"
        using release_at[OF inv' i len d] by simp
      have "shares_block b \<lparr>mem = h', handles = (hs[i := ?null])[i := sp]\<rparr>"
        using acquire_at[OF r _ _ _ _ a, of i j] i j False SharedPtr_copy_assign_Inr(2)[OF c]
        by simp
      then show ?thesis using s' s by simp
    qed
  next
    case (OpMoveAssign i j)
    show ?thesis
    proof (cases "i = j")
      case True
      with OpMoveAssign st s inv show ?thesis
        by (auto simp: SharedPtr_move_assign_def split: if_splits)
    next
      case False
      with OpMoveAssign st s obtain sp other h' where i: "i < length hs" and j: "j < length hs"
        and c: "SharedPtr_move_assign False (hs ! i) (hs ! j) h = Inr ((sp, other), h')"
        and s': "s' = \<lparr>mem = h', handles = (hs[i := sp])[j := other]\<rparr>"
        by (auto split: if_splits sum.splits)
      have r: "shares_block b \<lparr>mem = h', handles = hs[i := ?null]\<rparr>"
        using release_at[OF inv' i len SharedPtr_move_assign_Inr(1)[OF c]] by simp
      have "shares_block b \<lparr>mem = h', handles = ((hs[i := ?null])[i := sp])[j := other]\<rparr>"
        using exchange_at[OF r, of i j sp other] i j False SharedPtr_move_assign_Inr(2,3)[OF c]
        by simp
      then show ?thesis using s' s by simp
    qed
  next
    case (OpReset i)
    with st s obtain sp h' where i: "i < length hs"
      and c: "SharedPtr_Reset (hs ! i) h = Inr (sp, h')"
      and s': "s' = \<lparr>mem = h', handles = hs[i := sp]\<rparr>"
      by (auto split: if_splits sum.splits)
    show ?thesis
      using release_at[OF inv' i len SharedPtr_Reset_Inr(2)[OF c] SharedPtr_Reset_Inr(1)[OF c]]
        s' s by simp
  next
    case (OpSwap i j)
    with st s have i: "i < length hs" and j: "j < length hs"
      and s': "s' = \<lparr>mem = h, handles =
          (hs[i := (hs ! i)\<lparr>sp_control_block := sp_control_block (hs ! j), sp_ptr := sp_ptr (hs ! j)\<rparr>])
            [j := (hs ! j)\<lparr>sp_control_block := sp_control_block (hs ! i), sp_ptr := sp_ptr (hs ! i)\<rparr>]\<rparr>"
      by (auto simp: SharedPtr_Swap_def split: if_splits)
    show ?thesis unfolding s' using exchange_at[OF inv' i j] s by simp
  next
    case (OpDestructor i)
    with st s obtain sp h' where i: "i < length hs"
      and c: "SharedPtr_Reset (hs ! i) h = Inr (sp, h')"
      and s': "s' = \<lparr>mem = h', handles = take i hs @ drop (Suc i) hs\<rparr>"
      by (auto split: if_splits sum.splits)
    have r: "shares_block b \<lparr>mem = h', handles = hs[i := ?null]\<rparr>"
      using release_at[OF inv' i len SharedPtr_Reset_Inr(2)[OF c]] by simp
    have "shares_block b \<lparr>mem = h', handles = take i (hs[i := ?null]) @ drop (Suc i) (hs[i := ?null])\<rparr>"
      using remove_null[OF r, of i] i by simp
    then show ?thesis using s' s by simp
  qed
qed

lemma exec_shares_block:
  assumes "shares_block b s" and "exec ops s = Inr s'"
    and "length (handles s) + length ops < 2 ^ 64"
  shows "shares_block b s' \<and> length (handles s') \<le> length (handles s) + length ops"
  using assms
proof (induction ops arbitrary: s)
  case Nil
  then show ?case by simp
next
  case (Cons x xs)
  from Cons.prems(2) obtain s1 where s1: "step x s = Inr s1" and r: "exec xs s1 = Inr s'"
    by (auto split: sum.splits)
  have b0: "length (handles s) < 2 ^ 64" using Cons.prems(3) by simp
  from step_shares_block[OF Cons.prems(1) b0 s1]
  have i1: "shares_block b s1" and l1: "length (handles s1) \<le> Suc (length (handles s))" by simp_all
  have b1: "length (handles s1) + length xs < 2 ^ 64" using l1 Cons.prems(3) by simp
  from Cons.IH[OF i1 r b1] l1 show ?case by simp
qed

lemma shares_block_use_counts:
  assumes inv: "shares_block b s" and bound: "length (handles s) < 2 ^ 64"
  shows "use_counts_exact b s"
proof -
  have n: "live_refs b (handles s) < 2 ^ 64" using live_refs_le[of b "handles s"] bound by linarith
  have "case UseCount sp (mem s) of Inl e \<Rightarrow> False
        | Inr k \<Rightarrow> unat k = (if sp_control_block sp = None then 0 else live_refs b (handles s))"
    if sp: "sp \<in> set (handles s)" for sp
  proof (cases "sp_control_block sp")
    case None
    then show ?thesis by (simp add: UseCount_def SharedPtr_GetStrongCounter_def)
  next
    case (Some c)
    with inv sp have c: "c = b" by (auto simp: shares_block_def list_all_iff)
    from sp obtain i where i: "i < length (handles s)" "handles s ! i = sp"
      by (auto simp: in_set_conv_nth)
    with Some c have pos: "0 < live_refs b (handles s)" using live_refs_pos by blast
    with inv obtain blk where blk: "blocks (mem s) b = Some blk"
        "strong_ref_cnt blk = of_nat (live_refs b (handles s))"
      by (cases "blocks (mem s) b") (simp_all add: shares_block_def counted_def)
    have "unat (of_nat (live_refs b (handles s)) :: size_t) = live_refs b (handles s)"
      using n by (simp add: unat_of_nat)
    with Some c blk show ?thesis
      by (simp add: UseCount_def SharedPtr_GetStrongCounter_def GetStrongCounter_def)
  qed
  then show ?thesis by (simp add: use_counts_exact_def list_all_iff)
qed

subsection \<open>Where an operation can fail\<close>

text \<open>
  On handles that share a block, the increments always return, and so does every
  decrement but that of the last owner, which runs \<^verbatim>\<open>Destroy()\<close> and with it
  the destructor of the managed object. So an operation fails only if it names
  a handle that is not live, or if it releases the last owner.
\<close>

lemma inc_returns:
  assumes "counted b n h"
    and "sp_control_block sp = None \<or> sp_control_block sp = Some b"
    and "sp_control_block sp = Some b \<Longrightarrow> 0 < n"
  shows "\<exists>h'. IncreaseStrongCounter sp h = Inr h'"
proof (cases "sp_control_block sp = Some b")
  case True
  with assms(1,3) show ?thesis using counted_inc by blast
next
  case False
  with assms(2) show ?thesis by (simp add: null_inc)
qed

lemma dec_returns:
  assumes "counted b n h"
    and "sp_control_block sp = None \<or> sp_control_block sp = Some b"
    and "n \<noteq> 1" and "n < 2 ^ 64"
    and "sp_control_block sp = Some b \<Longrightarrow> 0 < n"
  shows "\<exists>h'. DecreaseStrongCounter sp h = Inr h'"
proof (cases "sp_control_block sp = Some b")
  case True
  with assms(3,5) obtain m where n: "n = Suc m" and m: "0 < m" by (cases n) auto
  from assms(4) n have mb: "m < 2 ^ 64" by simp
  from assms(1) n obtain blk where blk: "blocks h b = Some blk" "strong_ref_cnt blk = of_nat n"
    by (cases "blocks h b") (simp_all add: counted_def)
  have dec: "strong_ref_cnt blk - 1 = of_nat m" using blk(2) n by simp
  have nz: "strong_ref_cnt blk - 1 \<noteq> 0"
    unfolding dec by (rule of_nat_size_t_nonzero[OF m mb])
  show ?thesis
    using blk(1) True nz
    by (simp add: DecreaseStrongCounter_def DecStrongRef_def GetStrongCounter_def)
next
  case False
  with assms(2) show ?thesis by (simp add: null_dec)
qed

lemma step_fails_only_at_last_release:
  assumes inv: "shares_block b s" and bound: "length (handles s) < 2 ^ 64"
    and st: "step x s = Inl (e, h)"
  shows "e = IllFormed \<or> live_refs b (handles s) = 1"
proof (rule ccontr)
  assume neg: "\<not> (e = IllFormed \<or> live_refs b (handles s) = 1)"
  then have e: "e \<noteq> IllFormed" and n1: "live_refs b (handles s) \<noteq> 1" by simp_all
  obtain h0 hs where s: "s = \<lparr>mem = h0, handles = hs\<rparr>" by (cases s) auto
  note inv' = inv[unfolded s]
  have len: "length hs < 2 ^ 64" using bound s by simp
  have n: "live_refs b hs < 2 ^ 64" using live_refs_le[of b hs] len by linarith
  have n1': "live_refs b hs \<noteq> 1" using n1 s by simp
  have cnt: "counted b (live_refs b hs) h0" using shares_blockD(2)[OF inv'] .
  have ok: "sp_control_block (hs ! i) = None \<or> sp_control_block (hs ! i) = Some b"
    if "i < length hs" for i
    using shares_blockD(1)[OF inv'] that by simp
  have inc: "\<exists>h'. IncreaseStrongCounter sp h0 = Inr h'"
    if "i < length hs" "sp_control_block sp = sp_control_block (hs ! i)" for sp i
    using inc_returns[OF cnt, of sp] ok[OF that(1)] that live_refs_pos[of i hs b] by auto
  have dec: "\<exists>h'. DecreaseStrongCounter (hs ! i) h0 = Inr h'" if "i < length hs" for i
    using dec_returns[OF cnt ok[OF that] n1' n] live_refs_pos[OF that] by blast
  let ?null = "\<lparr>sp_control_block = None, sp_ptr = None\<rparr>"
  show False
  proof (cases x)
    case OpDefault
    with st s show ?thesis by simp
  next
    case OpNullptr
    with st s show ?thesis by simp
  next
    case (OpCopy i)
    with st s e have i: "i < length hs" by (auto split: if_splits)
    from inc[OF i, of "\<lparr>sp_control_block = sp_control_block (hs ! i), sp_ptr = sp_ptr (hs ! i)\<rparr>"]
    show ?thesis using OpCopy st s i by (auto simp: SharedPtr_copy_def Let_def)
  next
    case (OpMove i)
    with st s e show ?thesis by (auto simp: SharedPtr_move_def split: if_splits)
  next
    case (OpAlias i p)
    with st s e have i: "i < length hs" by (auto split: if_splits)
    from inc[OF i, of "\<lparr>sp_control_block = sp_control_block (hs ! i), sp_ptr = None\<rparr>"]
    show ?thesis using OpAlias st s i by (auto simp: SharedPtr_alias_def Let_def)
  next
    case (OpCopyAssign i j)
    with st s e have i: "i < length hs" and j: "j < length hs" by (auto split: if_splits)
    show ?thesis
    proof (cases "i = j")
      case True
      with OpCopyAssign st s i show ?thesis by (simp add: SharedPtr_copy_assign_def)
    next
      case False
      from dec[OF i] obtain h1 where d: "DecreaseStrongCounter (hs ! i) h0 = Inr h1" by blast
      have r: "shares_block b \<lparr>mem = h1, handles = hs[i := ?null]\<rparr>"
        using release_at[OF inv' i len d] by simp
      let ?sp1 = "(hs ! i)\<lparr>sp_control_block := sp_control_block (hs ! j), sp_ptr := sp_ptr (hs ! j)\<rparr>"
      have okj: "sp_control_block ?sp1 = None \<or> sp_control_block ?sp1 = Some b"
        using ok[OF j] by simp
      have pos: "0 < live_refs b (hs[i := ?null])" if "sp_control_block ?sp1 = Some b"
        using live_refs_pos[of j "hs[i := ?null]" b] that j False by simp
      from inc_returns[OF shares_blockD(2)[OF r] okj pos]
      obtain h2 where "IncreaseStrongCounter ?sp1 h1 = Inr h2" by blast
      with d OpCopyAssign st s i j False show ?thesis
        by (simp add: SharedPtr_copy_assign_def Let_def)
    qed
  next
    case (OpMoveAssign i j)
    with st s e have i: "i < length hs" and j: "j < length hs" by (auto split: if_splits)
    from dec[OF i] obtain h1 where d: "DecreaseStrongCounter (hs ! i) h0 = Inr h1" by blast
    with OpMoveAssign st s i j show ?thesis
      by (cases "i = j")
        (auto simp: SharedPtr_move_assign_def SharedPtr_Reset_def SharedPtr_Swap_def)
  next
    case (OpReset i)
    with st s e have i: "i < length hs" by (auto split: if_splits)
    from dec[OF i] obtain h1 where d: "DecreaseStrongCounter (hs ! i) h0 = Inr h1" by blast
    with OpReset st s i show ?thesis by (simp add: SharedPtr_Reset_def)
  next
    case (OpSwap i j)
    with st s e show ?thesis by (auto simp: SharedPtr_Swap_def split: if_splits)
  next
    case (OpDestructor i)
    with st s e have i: "i < length hs" by (auto split: if_splits)
    from dec[OF i] obtain h1 where d: "DecreaseStrongCounter (hs ! i) h0 = Inr h1" by blast
    with OpDestructor st s i show ?thesis by (simp add: SharedPtr_Reset_def)
  qed
qed

subsection \<open>The constructors that allocate a block\<close>

text \<open>
  \<^verbatim>\<open>SharedPtr(Y*)\<close> and \<^verbatim>\<open>MakeShared\<close> allocate the block and return its first
  handle: the state they produce shares that block, with or without
  \<^verbatim>\<open>EnableSharedFromThis\<close>.
\<close>

lemma from_raw_shares_block:
  assumes "SharedPtr_from_raw b p esft h = Inr (sp, h')"
  shows "shares_block b \<lparr>mem = h', handles = [sp]\<rparr>"
proof -
  let ?sp = "\<lparr>sp_control_block = Some b, sp_ptr = p\<rparr>"
  let ?blk = "(new_block (DefaultBlock p))\<lparr>strong_ref_cnt := 1\<rparr>"
  let ?h1 = "store_block b ?blk h"
  have sp: "sp = ?sp" using SharedPtr_from_raw_Inr[OF assms] .
  have "\<exists>blk'. blocks h' b = Some blk' \<and> strong_ref_cnt blk' = 1 \<and> \<not> is_destroyed blk'"
  proof (cases esft)
    case False
    with assms have "h' = ?h1" by (simp add: from_raw_plain)
    then show ?thesis by (simp add: store_block_def new_block_def)
  next
    case True
    with assms have i: "InitWeakThis ?sp p ?h1 = Inr h'"
      by (auto simp: SharedPtr_from_raw_def IncreaseStrongCounter_def cb_defs Let_def
          split: sum.splits)
    have "blocks ?h1 b = Some ?blk" by (simp add: store_block_def)
    from InitWeakThis_keeps_block[OF i _ this] show ?thesis by (auto simp: new_block_def)
  qed
  with sp show ?thesis by (auto simp: shares_block_def counted_def live_refs_def)
qed

lemma MakeShared_shares_block:
  assumes "MakeShared b a esft h = Inr (sp, h')"
  shows "shares_block b \<lparr>mem = h', handles = [sp]\<rparr>"
proof -
  let ?sp = "\<lparr>sp_control_block = Some b, sp_ptr = Some a\<rparr>"
  let ?blk = "(new_block (InlineBlock a))\<lparr>strong_ref_cnt := 1\<rparr>"
  have sp: "sp = ?sp" using MakeShared_Inr[OF assms] .
  have "\<exists>blk'. blocks h' b = Some blk' \<and> strong_ref_cnt blk' = 1 \<and> \<not> is_destroyed blk'"
  proof (cases esft)
    case False
    with assms have "blocks h' b = Some ?blk"
      by (auto simp: MakeShared_def SharedPtr_from_block_def IncreaseStrongCounter_def cb_defs
          Let_def)
    then show ?thesis by (simp add: new_block_def)
  next
    case True
    with assms obtain h1 where i: "InitWeakThis ?sp (Some a) h1 = Inr h'"
      and b1: "blocks h1 b = Some ?blk"
      by (auto simp: MakeShared_def SharedPtr_from_block_def IncreaseStrongCounter_def cb_defs
          Let_def split: sum.splits)
    from InitWeakThis_keeps_block[OF i _ b1] show ?thesis by (auto simp: new_block_def)
  qed
  with sp show ?thesis by (auto simp: shares_block_def counted_def live_refs_def)
qed

text \<open>
  C1. Let the live \<^verbatim>\<open>SharedPtr\<close> handles of a state share one control block, as
  they do after \<^verbatim>\<open>SharedPtr(Y*)\<close> or \<^verbatim>\<open>MakeShared\<close> (lemmas
  \<open>from_raw_shares_block\<close>, \<open>MakeShared_shares_block\<close>). After any sequence of
  default, null, copy, move and aliasing constructions, copy and move
  assignments, \<^verbatim>\<open>Reset()\<close>, \<^verbatim>\<open>Swap()\<close> and destructor calls on these handles
  that runs to its end (only the release of the last owner can fail, lemma
  \<open>step_fails_only_at_last_release\<close>), the handles still share the block, and
  \<^verbatim>\<open>UseCount()\<close> on every live handle is the number of live handles that
  reference the block, and 0 on a null handle. The sequence may stop anywhere, so this holds at every
  observation point. The counter is a 64-bit \<^verbatim>\<open>size_t\<close>: the handles alive at
  the start and the operations together are fewer than \<open>2 ^ 64\<close>.
\<close>

theorem use_count_counts_live_handles:
  assumes "shares_block b s" and "exec ops s = Inr s'"
    and "length (handles s) + length ops < 2 ^ 64"
  shows "shares_block b s' \<and> use_counts_exact b s'"
proof -
  from exec_shares_block[OF assms]
  have i: "shares_block b s'" and l: "length (handles s') \<le> length (handles s) + length ops"
    by simp_all
  from l assms(3) have "length (handles s') < 2 ^ 64" by linarith
  from shares_block_use_counts[OF i this] i show ?thesis by simp
qed

text \<open>
  The handle of the example state is copied, aliased, moved, assigned, reset and
  destroyed; of the three handles left, one is null and two own the block.
\<close>

theorem use_count_counts_live_handles_witness:
  "shares_block 7
     \<lparr>mem = store_block 7 (ex_block\<lparr>strong_ref_cnt := 2\<rparr>) ex_heap,
      handles = [SharedPtr_default, \<lparr>sp_control_block = Some 7, sp_ptr = None\<rparr>,
                 \<lparr>sp_control_block = Some 7, sp_ptr = None\<rparr>]\<rparr>
   \<and> use_counts_exact 7
     \<lparr>mem = store_block 7 (ex_block\<lparr>strong_ref_cnt := 2\<rparr>) ex_heap,
      handles = [SharedPtr_default, \<lparr>sp_control_block = Some 7, sp_ptr = None\<rparr>,
                 \<lparr>sp_control_block = Some 7, sp_ptr = None\<rparr>]\<rparr>"
proof -
  let ?ops = "[OpCopy 0, OpAlias 0 None, OpMove 1, OpCopyAssign 1 2, OpReset 0, OpDestructor 3]"
  let ?s = "\<lparr>mem = ex_heap, handles = [ex_shared]\<rparr>"
  have a: "shares_block 7 ?s"
    by (simp add: shares_block_def counted_def live_refs_def ex_defs)
  have b: "exec ?ops ?s
     = Inr \<lparr>mem = store_block 7 (ex_block\<lparr>strong_ref_cnt := 2\<rparr>) ex_heap,
      handles = [SharedPtr_default, \<lparr>sp_control_block = Some 7, sp_ptr = None\<rparr>,
                 \<lparr>sp_control_block = Some 7, sp_ptr = None\<rparr>]\<rparr>"
    by (simp add: SharedPtr_copy_def SharedPtr_alias_def SharedPtr_move_def
        SharedPtr_copy_assign_def SharedPtr_Reset_def SharedPtr_default_def
        IncreaseStrongCounter_def DecreaseStrongCounter_def cb_defs ex_defs Let_def)
  have c: "length (handles ?s) + length ?ops < 2 ^ 64" by simp
  from use_count_counts_live_handles[OF a b c] show ?thesis .
qed

section \<open>Self-assignment\<close>

text \<open>
  C7. Copy-assigning a live handle to itself, null or not, changes neither the
  handle nor the heap: \<^verbatim>\<open>UseCount()\<close> is what it was, no counter moves, and no
  destructor runs.
\<close>

theorem self_assignment_is_noop:
  assumes "i < length (handles s)"
  shows "step (OpCopyAssign i i) s = Inr s
         \<and> SharedPtr_copy_assign True (handles s ! i) (handles s ! i) (mem s)
             = Inr (handles s ! i, mem s)"
  using assms by (simp add: SharedPtr_copy_assign_def)

text \<open>Self-assignment of the only owner of the example block, and of a null handle.\<close>

theorem self_assignment_is_noop_witness:
  "step (OpCopyAssign 0 0) \<lparr>mem = ex_heap, handles = [ex_shared]\<rparr>
     = Inr \<lparr>mem = ex_heap, handles = [ex_shared]\<rparr>
   \<and> step (OpCopyAssign 0 0) \<lparr>mem = ex_heap, handles = [SharedPtr_default]\<rparr>
     = Inr \<lparr>mem = ex_heap, handles = [SharedPtr_default]\<rparr>"
proof -
  have a: "0 < length (handles \<lparr>mem = ex_heap, handles = [ex_shared]\<rparr>)" by simp
  have b: "0 < length (handles \<lparr>mem = ex_heap, handles = [SharedPtr_default]\<rparr>)" by simp
  from self_assignment_is_noop[OF a] self_assignment_is_noop[OF b] show ?thesis by blast
qed

section \<open>Value pointer and control block\<close>

text \<open>
  Adopting a null raw pointer gives a handle whose value pointer is null and
  whose control block is not; so does the aliasing constructor when it is given
  a null pointer and a handle that owns a block.
\<close>

theorem null_adoption_breaks_iff_counterexample:
  "(case SharedPtr_from_raw 7 None False empty_heap of
      Inl e \<Rightarrow> False
    | Inr (sp, h') \<Rightarrow> sp_ptr sp = None \<and> sp_control_block sp = Some 7
        \<and> \<not> ptr_null_iff_block_null sp)
   \<and> (case SharedPtr_alias ex_shared None ex_heap of
      Inl e \<Rightarrow> False
    | Inr (sp, h') \<Rightarrow> sp_ptr sp = None \<and> sp_control_block sp = Some 7
        \<and> \<not> ptr_null_iff_block_null sp)"
  by (simp add: SharedPtr_from_raw_def SharedPtr_alias_def IncreaseStrongCounter_def cb_defs
      empty_heap_def ptr_null_iff_block_null_def ex_defs)

text \<open>
  C8, amended. The default and the \<^verbatim>\<open>nullptr_t\<close> constructor return the handle
  with both fields null, and \<^verbatim>\<open>MakeShared\<close> one with the new block and its
  storage, so for these the value pointer is null exactly when the control
  block is null. The copy and the move constructor give the new handle the two
  fields of the source, so it has the property exactly when the source has it,
  and the moved-from handle is null in both fields. A promoted handle has the
  two fields of the \<^verbatim>\<open>WeakPtr\<close> and a block that is not null. Raw-pointer
  adoption always returns a handle with a new block and the adopted pointer, so
  the property holds exactly when the adopted pointer is not null. The aliasing
  constructor takes the block of the source and the pointer it is given, so the
  property holds exactly when both are null or neither is.
\<close>

theorem constructors_ptr_and_block:
  "SharedPtr_default = \<lparr>sp_control_block = None, sp_ptr = None\<rparr>
   \<and> SharedPtr_nullptr = \<lparr>sp_control_block = None, sp_ptr = None\<rparr>
   \<and> ptr_null_iff_block_null SharedPtr_default
   \<and> ptr_null_iff_block_null SharedPtr_nullptr
   \<and> (\<forall>sp h'. MakeShared b a esft h = Inr (sp, h')
         \<longrightarrow> sp = \<lparr>sp_control_block = Some b, sp_ptr = Some a\<rparr> \<and> ptr_null_iff_block_null sp)
   \<and> (\<forall>sp h'. SharedPtr_copy other h = Inr (sp, h')
         \<longrightarrow> sp = \<lparr>sp_control_block = sp_control_block other, sp_ptr = sp_ptr other\<rparr>
             \<and> ptr_null_iff_block_null sp = ptr_null_iff_block_null other)
   \<and> fst (SharedPtr_move other)
       = \<lparr>sp_control_block = sp_control_block other, sp_ptr = sp_ptr other\<rparr>
   \<and> snd (SharedPtr_move other) = other\<lparr>sp_control_block := None, sp_ptr := None\<rparr>
   \<and> ptr_null_iff_block_null (fst (SharedPtr_move other)) = ptr_null_iff_block_null other
   \<and> ptr_null_iff_block_null (snd (SharedPtr_move other))
   \<and> (\<forall>sp h'. SharedPtr_from_weak w h = Inr (sp, h')
         \<longrightarrow> sp = \<lparr>sp_control_block = wp_control_block w, sp_ptr = wp_ptr w\<rparr>
             \<and> wp_control_block w \<noteq> None
             \<and> ptr_null_iff_block_null sp = (wp_ptr w \<noteq> None))
   \<and> (\<forall>sp h'. SharedPtr_from_raw b p esft h = Inr (sp, h')
         \<longrightarrow> sp = \<lparr>sp_control_block = Some b, sp_ptr = p\<rparr>
             \<and> ptr_null_iff_block_null sp = (p \<noteq> None))
   \<and> (\<forall>sp h'. SharedPtr_alias other p h = Inr (sp, h')
         \<longrightarrow> sp = \<lparr>sp_control_block = sp_control_block other, sp_ptr = p\<rparr>
             \<and> ptr_null_iff_block_null sp = ((p = None) = (sp_control_block other = None)))"
proof (intro conjI allI impI)
  show "SharedPtr_default = \<lparr>sp_control_block = None, sp_ptr = None\<rparr>"
    by (simp add: SharedPtr_default_def)
  show "SharedPtr_nullptr = \<lparr>sp_control_block = None, sp_ptr = None\<rparr>"
    by (simp add: SharedPtr_nullptr_def)
  show "ptr_null_iff_block_null SharedPtr_default"
    by (simp add: ptr_null_iff_block_null_def SharedPtr_default_def)
  show "ptr_null_iff_block_null SharedPtr_nullptr"
    by (simp add: ptr_null_iff_block_null_def SharedPtr_nullptr_def)
  show "sp = \<lparr>sp_control_block = Some b, sp_ptr = Some a\<rparr>" "ptr_null_iff_block_null sp"
    if "MakeShared b a esft h = Inr (sp, h')" for sp h'
    using MakeShared_Inr[OF that] by (simp_all add: ptr_null_iff_block_null_def)
  show "sp = \<lparr>sp_control_block = sp_control_block other, sp_ptr = sp_ptr other\<rparr>"
    "ptr_null_iff_block_null sp = ptr_null_iff_block_null other"
    if "SharedPtr_copy other h = Inr (sp, h')" for sp h'
    using SharedPtr_copy_fields[OF that] by (simp_all add: ptr_null_iff_block_null_def)
  show "fst (SharedPtr_move other)
       = \<lparr>sp_control_block = sp_control_block other, sp_ptr = sp_ptr other\<rparr>"
    by (simp add: SharedPtr_move_def)
  show "snd (SharedPtr_move other) = other\<lparr>sp_control_block := None, sp_ptr := None\<rparr>"
    by (simp add: SharedPtr_move_def)
  show "ptr_null_iff_block_null (fst (SharedPtr_move other)) = ptr_null_iff_block_null other"
    by (simp add: ptr_null_iff_block_null_def SharedPtr_move_def)
  show "ptr_null_iff_block_null (snd (SharedPtr_move other))"
    by (simp add: ptr_null_iff_block_null_def SharedPtr_move_def)
  show "sp = \<lparr>sp_control_block = wp_control_block w, sp_ptr = wp_ptr w\<rparr>"
    "wp_control_block w \<noteq> None"
    "ptr_null_iff_block_null sp = (wp_ptr w \<noteq> None)"
    if "SharedPtr_from_weak w h = Inr (sp, h')" for sp h'
    using SharedPtr_from_weak_Inr[OF that] by (auto simp: ptr_null_iff_block_null_def)
  show "sp = \<lparr>sp_control_block = Some b, sp_ptr = p\<rparr>"
    "ptr_null_iff_block_null sp = (p \<noteq> None)"
    if "SharedPtr_from_raw b p esft h = Inr (sp, h')" for sp h'
    using SharedPtr_from_raw_Inr[OF that] by (auto simp: ptr_null_iff_block_null_def)
  show "sp = \<lparr>sp_control_block = sp_control_block other, sp_ptr = p\<rparr>"
    "ptr_null_iff_block_null sp = ((p = None) = (sp_control_block other = None))"
    if "SharedPtr_alias other p h = Inr (sp, h')" for sp h'
    using SharedPtr_alias_fields[OF that] by (auto simp: ptr_null_iff_block_null_def)
qed

text \<open>
  \<^verbatim>\<open>MakeShared\<close> on the empty heap, with the block at 7 and its storage at 3, and
  a copy of the handle of the example state.
\<close>

theorem constructors_ptr_and_block_witness:
  "MakeShared 7 3 False empty_heap
     = Inr (ex_shared, store_block 7 ((new_block (InlineBlock 3))\<lparr>strong_ref_cnt := 1\<rparr>)
                         (empty_heap\<lparr>objects := [3 \<mapsto> PlainObject]\<rparr>))
   \<and> ptr_null_iff_block_null ex_shared
   \<and> SharedPtr_copy ex_shared ex_heap
     = Inr (ex_shared, store_block 7 (ex_block\<lparr>strong_ref_cnt := 2\<rparr>) ex_heap)"
proof -
  note T = constructors_ptr_and_block[where b = 7 and a = 3 and esft = False and h = empty_heap]
  note U = constructors_ptr_and_block[where other = ex_shared and h = ex_heap]
  have m: "MakeShared 7 3 False empty_heap
     = Inr (ex_shared, store_block 7 ((new_block (InlineBlock 3))\<lparr>strong_ref_cnt := 1\<rparr>)
                         (empty_heap\<lparr>objects := [3 \<mapsto> PlainObject]\<rparr>))"
    by (simp add: MakeShared_def SharedPtr_from_block_def IncreaseStrongCounter_def cb_defs
        empty_heap_def ex_shared_def)
  have c: "SharedPtr_copy ex_shared ex_heap
     = Inr (ex_shared, store_block 7 (ex_block\<lparr>strong_ref_cnt := 2\<rparr>) ex_heap)"
    by (simp add: SharedPtr_copy_def IncreaseStrongCounter_def cb_defs ex_defs)
  have "\<forall>sp h'. MakeShared 7 3 False empty_heap = Inr (sp, h')
         \<longrightarrow> sp = \<lparr>sp_control_block = Some 7, sp_ptr = Some 3\<rparr> \<and> ptr_null_iff_block_null sp"
    by (rule T[THEN conjunct2, THEN conjunct2, THEN conjunct2, THEN conjunct2, THEN conjunct1])
  with m have 1: "ptr_null_iff_block_null ex_shared" by blast
  have "\<forall>sp h'. SharedPtr_copy ex_shared ex_heap = Inr (sp, h')
         \<longrightarrow> sp = \<lparr>sp_control_block = sp_control_block ex_shared, sp_ptr = sp_ptr ex_shared\<rparr>
             \<and> ptr_null_iff_block_null sp = ptr_null_iff_block_null ex_shared"
    by (rule U[THEN conjunct2, THEN conjunct2, THEN conjunct2, THEN conjunct2, THEN conjunct2,
          THEN conjunct1])
  with c have "ptr_null_iff_block_null ex_shared = ptr_null_iff_block_null ex_shared" by blast
  with m 1 c show ?thesis by blast
qed

text \<open>
  Adopting a null raw pointer of a type that does not derive from
  \<^verbatim>\<open>EnableSharedFromThis\<close> allocates a \<^verbatim>\<open>DefaultBlock\<close> all the same: the
  handle owns a block whose \<^verbatim>\<open>deletem_ptr\<close> is null, reports \<^verbatim>\<open>UseCount() == 1\<close>
  and converts to \<^verbatim>\<open>false\<close>, whereas the default-constructed and the
  \<^verbatim>\<open>nullptr_t\<close>-constructed handles have no block and report 0.
\<close>

lemma null_adoption_plain:
  "(case SharedPtr_from_raw b None False h of
      Inl e \<Rightarrow> False
    | Inr (sp, h') \<Rightarrow>
        sp_control_block sp = Some b
        \<and> map_option kind (blocks h' b) = Some (DefaultBlock None)
        \<and> UseCount sp h' = Inr 1
        \<and> SharedPtr_bool sp = False)
   \<and> UseCount SharedPtr_default h = Inr 0
   \<and> UseCount SharedPtr_nullptr h = Inr 0
   \<and> SharedPtr_bool SharedPtr_default = False
   \<and> SharedPtr_bool SharedPtr_nullptr = False"
  by (simp add: from_raw_plain UseCount_def SharedPtr_GetStrongCounter_def store_block_def
      GetStrongCounter_def SharedPtr_bool_def SharedPtr_default_def SharedPtr_nullptr_def
      new_block_def)

lemma InitWeakThis_null: "InitWeakThis sp None h = Inl (NullDeref, h)"
  by (simp add: InitWeakThis_def)

text \<open>
  C9. \<^verbatim>\<open>SharedPtr(Y* ptr)\<close> on a null pointer allocates the \<^verbatim>\<open>DefaultBlock\<close> and
  increments its strong counter for every \<^verbatim>\<open>Y\<close>. For a \<^verbatim>\<open>Y\<close> that derives from
  \<^verbatim>\<open>EnableSharedFromThis\<close> the constructor then calls \<^verbatim>\<open>InitWeakThis(ptr)\<close>,
  which has no null test and dereferences the null pointer: no handle is
  returned, so none reports \<^verbatim>\<open>UseCount() == 1\<close>. For any other \<^verbatim>\<open>Y\<close> the handle
  is returned, reports \<^verbatim>\<open>UseCount() == 1\<close> and converts to \<^verbatim>\<open>false\<close>; the default
  and the \<^verbatim>\<open>nullptr_t\<close> handle report 0.
\<close>

theorem null_adoption_esft_null_deref:
  "SharedPtr_from_raw b None True h
     = Inl (NullDeref, store_block b ((new_block (DefaultBlock None))\<lparr>strong_ref_cnt := 1\<rparr>) h)
   \<and> SharedPtr_from_raw b None False h
     = Inr (\<lparr>sp_control_block = Some b, sp_ptr = None\<rparr>,
            store_block b ((new_block (DefaultBlock None))\<lparr>strong_ref_cnt := 1\<rparr>) h)
   \<and> UseCount \<lparr>sp_control_block = Some b, sp_ptr = None\<rparr>
        (store_block b ((new_block (DefaultBlock None))\<lparr>strong_ref_cnt := 1\<rparr>) h) = Inr 1
   \<and> SharedPtr_bool \<lparr>sp_control_block = Some b, sp_ptr = None\<rparr> = False
   \<and> UseCount SharedPtr_default h = Inr 0
   \<and> UseCount SharedPtr_nullptr h = Inr 0"
  by (simp add: from_raw_plain SharedPtr_from_raw_def InitWeakThis_null IncreaseStrongCounter_def
      UseCount_def SharedPtr_GetStrongCounter_def store_block_def IncStrongRef_def
      GetStrongCounter_def SharedPtr_bool_def SharedPtr_default_def SharedPtr_nullptr_def
      new_block_def)

section \<open>Promotion of a \<^verbatim>\<open>WeakPtr\<close>\<close>

text \<open>
  C3. Let a \<^verbatim>\<open>WeakPtr\<close> reference an allocated control block. If the managed
  object has been destroyed, constructing a \<^verbatim>\<open>SharedPtr\<close> from it raises
  \<^verbatim>\<open>BadWeakPtr\<close> and leaves the heap, hence every counter, as it was. Otherwise
  the new handle has the block and the pointer of the \<^verbatim>\<open>WeakPtr\<close>, and the
  strong counter of the block is one higher; nothing else changes.
\<close>

theorem promotion_raises_or_increments:
  assumes "wp_control_block w = Some b" and "blocks h b = Some blk"
  shows "SharedPtr_from_weak w h =
           (if IsDestroyed blk then Inl (BadWeakPtr, h)
            else Inr (\<lparr>sp_control_block = Some b, sp_ptr = wp_ptr w\<rparr>,
                      store_block b (blk\<lparr>strong_ref_cnt := strong_ref_cnt blk + 1\<rparr>) h))"
  using assms
  by (simp add: SharedPtr_from_weak_def IncreaseStrongCounter_def IncStrongRef_def)

text \<open>Promotion in the example state, and after the object has been destroyed.\<close>

theorem promotion_raises_or_increments_witness:
  "SharedPtr_from_weak ex_weak ex_heap =
     Inr (ex_shared, store_block 7 (ex_block\<lparr>strong_ref_cnt := 2\<rparr>) ex_heap)
   \<and> SharedPtr_from_weak ex_weak ex_heap_destroyed = Inl (BadWeakPtr, ex_heap_destroyed)"
proof -
  have a: "wp_control_block ex_weak = Some 7" by (simp add: ex_weak_def)
  have b: "blocks ex_heap 7 = Some ex_block" by (simp add: ex_heap_def)
  have c: "blocks ex_heap_destroyed 7 = Some ex_block_destroyed"
    by (simp add: ex_heap_destroyed_def)
  show ?thesis
    using promotion_raises_or_increments[OF a b] promotion_raises_or_increments[OF a c]
    by (simp add: IsDestroyed_def ex_block_def ex_block_destroyed_def ex_weak_def ex_shared_def)
qed

text \<open>
  C5. \<^verbatim>\<open>SharedFromThis()\<close> on an object that no \<^verbatim>\<open>SharedPtr\<close> has wrapped: the
  embedded \<^verbatim>\<open>weak_this_\<close> has no control block, and the promoting constructor
  calls \<^verbatim>\<open>control_block_->IsDestroyed()\<close> without the null test that
  \<^verbatim>\<open>Expired()\<close> makes, so it dereferences a null pointer and raises nothing.
  While the object of a wrapped handle is being destroyed, its block is marked
  destroyed and \<^verbatim>\<open>SharedFromThis()\<close> raises \<^verbatim>\<open>BadWeakPtr\<close>.
\<close>

theorem SharedFromThis_unwrapped_null_deref:
  "SharedFromThis 3 ex_heap_unwrapped = Inl (NullDeref, ex_heap_unwrapped)
   \<and> SharedFromThis 3 ex_heap_teardown = Inl (BadWeakPtr, ex_heap_teardown)"
  by (simp add: SharedFromThis_def SharedPtr_from_weak_def WeakPtr_default_def IsDestroyed_def
      ex_defs)

section \<open>\<^verbatim>\<open>Lock\<close>\<close>

lemma Lock_plain:
  assumes "wp_control_block w = Some b" and "blocks h b = Some blk" and "\<not> is_destroyed blk"
  shows "Lock w False h
          = Inr (\<lparr>sp_control_block = Some b, sp_ptr = wp_ptr w\<rparr>, store_block b (IncStrongRef blk) h)"
  using assms
  by (simp add: Lock_def Expired_def IsDestroyed_def SharedPtr_from_block_def
      IncreaseStrongCounter_def)

lemma Lock_expired:
  assumes "wp_control_block w = None
           \<or> (\<exists>b blk. wp_control_block w = Some b \<and> blocks h b = Some blk \<and> is_destroyed blk)"
  shows "Lock w esft h = Inr (SharedPtr_default, h)"
  using assms by (auto simp: Lock_def Expired_def IsDestroyed_def)

lemma Lock_esft:
  assumes w: "wp_control_block w = Some b" and blk: "blocks h b = Some blk"
    and alive: "\<not> is_destroyed blk"
    and nowrap: "unat (strong_ref_cnt blk) + unat (weak_ref_cnt blk) + 1 < 2 ^ 64"
    and lock: "Lock w True h = Inr (sp, h')"
  shows "sp = \<lparr>sp_control_block = Some b, sp_ptr = wp_ptr w\<rparr>
         \<and> map_option strong_ref_cnt (blocks h' b) = Some (strong_ref_cnt blk + 1)
         \<and> map_option is_destroyed (blocks h' b) = Some False"
proof -
  let ?sp = "\<lparr>sp_control_block = Some b, sp_ptr = wp_ptr w\<rparr>"
  let ?h1 = "store_block b (IncStrongRef blk) h"
  from lock w blk alive have i: "InitWeakThis ?sp (wp_ptr w) ?h1 = Inr h'" and sp: "sp = ?sp"
    by (auto simp: Lock_def Expired_def IsDestroyed_def SharedPtr_from_block_def
        IncreaseStrongCounter_def Let_def split: sum.splits)
  have b1: "blocks ?h1 b = Some (IncStrongRef blk)" by (simp add: store_block_def)
  have nz: "strong_ref_cnt (IncStrongRef blk) + weak_ref_cnt (IncStrongRef blk) \<noteq> 0"
    using size_t_sum_nonzero[OF nowrap] by (simp add: IncStrongRef_def)
  from InitWeakThis_keeps_block[OF i _ b1 nz] alive sp show ?thesis
    by (auto simp: IncStrongRef_def)
qed

lemma Lock_esft_returns:
  assumes w: "wp_control_block w = Some b" and blk: "blocks h b = Some blk"
    and alive: "\<not> is_destroyed blk"
    and p: "wp_ptr w = Some a" and ob: "objects h a = Some (EsftObject wt)"
    and wt: "wp_control_block wt = None \<or> wp_control_block wt = Some b"
  shows "\<exists>r. Lock w True h = Inr r"
  using assms
  by (auto simp: Lock_def Expired_def SharedPtr_from_block_def
        IncreaseStrongCounter_def InitWeakThis_def WeakPtr_from_shared_def WeakPtr_move_assign_def
      WeakPtr_Swap_def WeakPtr_Reset_def DecreaseWeakCounter_def IncreaseWeakCounter_def
      cb_defs Let_def)

text \<open>
  Let a \<^verbatim>\<open>WeakPtr\<close> be null or reference an allocated control block. If it is
  expired - null, or the managed object destroyed - \<^verbatim>\<open>Lock()\<close> returns a null
  \<^verbatim>\<open>SharedPtr\<close> and the heap is unchanged, so no counter moves and the strong
  counter of a destroyed object is never incremented. If the object is alive,
  \<^verbatim>\<open>Lock()\<close> returns a handle with the block and the pointer of the \<^verbatim>\<open>WeakPtr\<close>
  and the strong counter is one higher. For a pointee type without
  \<^verbatim>\<open>EnableSharedFromThis\<close> this is the only change. For a type with it the
  constructor also rewires \<^verbatim>\<open>weak_this_\<close>: whenever \<^verbatim>\<open>Lock()\<close> returns and the
  counters are not about to wrap, the strong counter is one higher, and it does
  return when the pointee is a live object whose \<^verbatim>\<open>weak_this_\<close> is null or
  references the same block.
\<close>

lemma Lock_increments_only_live:
  assumes "wp_control_block w = None \<or> (wp_control_block w = Some b \<and> blocks h b = Some blk)"
  shows "(if wp_control_block w = None \<or> IsDestroyed blk
          then Lock w esft h = Inr (SharedPtr_default, h)
          else Lock w False h
                 = Inr (\<lparr>sp_control_block = Some b, sp_ptr = wp_ptr w\<rparr>,
                        store_block b (blk\<lparr>strong_ref_cnt := strong_ref_cnt blk + 1\<rparr>) h)
               \<and> (\<forall>sp h'. Lock w True h = Inr (sp, h')
                      \<and> unat (strong_ref_cnt blk) + unat (weak_ref_cnt blk) + 1 < 2 ^ 64
                    \<longrightarrow> sp = \<lparr>sp_control_block = Some b, sp_ptr = wp_ptr w\<rparr>
                        \<and> map_option strong_ref_cnt (blocks h' b) = Some (strong_ref_cnt blk + 1))
               \<and> (\<forall>a wt. wp_ptr w = Some a \<and> objects h a = Some (EsftObject wt)
                      \<and> (wp_control_block wt = None \<or> wp_control_block wt = Some b)
                    \<longrightarrow> (\<exists>r. Lock w True h = Inr r)))"
proof (cases "wp_control_block w = None \<or> IsDestroyed blk")
  case True
  with assms have "Lock w esft h = Inr (SharedPtr_default, h)"
    by (intro Lock_expired) (auto simp: IsDestroyed_def)
  with True show ?thesis by simp
next
  case False
  with assms have w: "wp_control_block w = Some b" and blk: "blocks h b = Some blk"
    and alive: "\<not> is_destroyed blk" by (auto simp: IsDestroyed_def)
  have "Lock w False h
          = Inr (\<lparr>sp_control_block = Some b, sp_ptr = wp_ptr w\<rparr>,
                 store_block b (blk\<lparr>strong_ref_cnt := strong_ref_cnt blk + 1\<rparr>) h)"
    using Lock_plain[OF w blk alive] by (simp add: IncStrongRef_def)
  moreover have "sp = \<lparr>sp_control_block = Some b, sp_ptr = wp_ptr w\<rparr>
      \<and> map_option strong_ref_cnt (blocks h' b) = Some (strong_ref_cnt blk + 1)"
    if "Lock w True h = Inr (sp, h')"
      "unat (strong_ref_cnt blk) + unat (weak_ref_cnt blk) + 1 < 2 ^ 64" for sp h'
    using Lock_esft[OF w blk alive that(2) that(1)] by simp
  moreover have "\<exists>r. Lock w True h = Inr r"
    if "wp_ptr w = Some a" "objects h a = Some (EsftObject wt)"
      "wp_control_block wt = None \<or> wp_control_block wt = Some b" for a wt
    using Lock_esft_returns[OF w blk alive that] .
  ultimately have "Lock w False h
                 = Inr (\<lparr>sp_control_block = Some b, sp_ptr = wp_ptr w\<rparr>,
                        store_block b (blk\<lparr>strong_ref_cnt := strong_ref_cnt blk + 1\<rparr>) h)
               \<and> (\<forall>sp h'. Lock w True h = Inr (sp, h')
                      \<and> unat (strong_ref_cnt blk) + unat (weak_ref_cnt blk) + 1 < 2 ^ 64
                    \<longrightarrow> sp = \<lparr>sp_control_block = Some b, sp_ptr = wp_ptr w\<rparr>
                        \<and> map_option strong_ref_cnt (blocks h' b) = Some (strong_ref_cnt blk + 1))
               \<and> (\<forall>a wt. wp_ptr w = Some a \<and> objects h a = Some (EsftObject wt)
                      \<and> (wp_control_block wt = None \<or> wp_control_block wt = Some b)
                    \<longrightarrow> (\<exists>r. Lock w True h = Inr r))"
    by blast
  then show ?thesis unfolding if_not_P[OF False] .
qed

text \<open>
  \<^verbatim>\<open>Lock()\<close> in the example state, after the object has been destroyed, and on
  an object with \<^verbatim>\<open>EnableSharedFromThis\<close>.
\<close>

lemma Lock_examples:
  "Lock ex_weak False ex_heap
     = Inr (ex_shared, store_block 7 (ex_block\<lparr>strong_ref_cnt := 2\<rparr>) ex_heap)
   \<and> Lock ex_weak False ex_heap_destroyed = Inr (SharedPtr_default, ex_heap_destroyed)
   \<and> Lock ex_weak True ex_heap_esft
     = Inr (ex_shared, store_block 7 (ex_block_esft\<lparr>strong_ref_cnt := 2\<rparr>) ex_heap_esft)"
proof -
  have a: "wp_control_block ex_weak = None
      \<or> (wp_control_block ex_weak = Some 7 \<and> blocks ex_heap 7 = Some ex_block)"
    by (simp add: ex_weak_def ex_heap_def)
  have b: "wp_control_block ex_weak = None
      \<or> (wp_control_block ex_weak = Some 7 \<and> blocks ex_heap_destroyed 7 = Some ex_block_destroyed)"
    by (simp add: ex_weak_def ex_heap_destroyed_def)
  have c: "Lock ex_weak True ex_heap_esft
     = Inr (ex_shared, store_block 7 (ex_block_esft\<lparr>strong_ref_cnt := 2\<rparr>) ex_heap_esft)"
    by (simp add: Lock_def Expired_def SharedPtr_from_block_def IncreaseStrongCounter_def
        InitWeakThis_def WeakPtr_from_shared_def WeakPtr_move_assign_def WeakPtr_Swap_def
        WeakPtr_Reset_def DecreaseWeakCounter_def IncreaseWeakCounter_def MakeEsftPtr_def
        cb_defs ex_defs Let_def)
  show ?thesis
    using Lock_increments_only_live[OF a, of False] Lock_increments_only_live[OF b, of False] c
    by (simp add: IsDestroyed_def ex_block_def ex_block_destroyed_def ex_weak_def ex_shared_def)
qed

text \<open>
  The aliased example state is what the constructors produce, in three steps.
\<close>

lemma ex_heap_aliased_reached:
  "SharedPtr_from_raw 7 (Some 3) True ex_heap_unwrapped
     = Inr (ex_shared, store_block 7 (ex_block_aliased\<lparr>strong_ref_cnt := 1, weak_ref_cnt := 1\<rparr>)
                         (ex_heap_aliased))"
  "SharedPtr_alias ex_shared None
       (store_block 7 (ex_block_aliased\<lparr>strong_ref_cnt := 1, weak_ref_cnt := 1\<rparr>) ex_heap_aliased)
     = Inr (ex_alias_null, store_block 7 (ex_block_aliased\<lparr>weak_ref_cnt := 1\<rparr>) ex_heap_aliased)"
  "WeakPtr_from_shared ex_alias_null
       (store_block 7 (ex_block_aliased\<lparr>weak_ref_cnt := 1\<rparr>) ex_heap_aliased)
     = Inr (ex_weak_null, ex_heap_aliased)"
  by (simp_all add: SharedPtr_from_raw_def SharedPtr_alias_def IncreaseStrongCounter_def
      InitWeakThis_def WeakPtr_from_shared_def WeakPtr_move_assign_def WeakPtr_Swap_def
      WeakPtr_Reset_def DecreaseWeakCounter_def IncreaseWeakCounter_def MakeEsftPtr_def
      WeakPtr_default_def cb_defs ex_defs Let_def)

text \<open>
  C4. \<^verbatim>\<open>Lock()\<close> on a \<^verbatim>\<open>WeakPtr\<close> whose object is alive, whose pointee type
  derives from \<^verbatim>\<open>EnableSharedFromThis\<close> and whose stored pointer is null, as it
  is for a \<^verbatim>\<open>WeakPtr\<close> made from an aliasing handle: \<^verbatim>\<open>Expired()\<close> is false, the
  constructor \<^verbatim>\<open>SharedPtr(block, ptr)\<close> increments the strong counter, and
  \<^verbatim>\<open>InitWeakThis(ptr)\<close>, which has no null test, dereferences the null pointer.
  No handle is returned, and the strong counter is one above the number of
  owners. On an expired \<^verbatim>\<open>WeakPtr\<close>, for a pointee type without
  \<^verbatim>\<open>EnableSharedFromThis\<close>, and for one with it whose stored pointer is a live
  object, \<^verbatim>\<open>Lock()\<close> returns as lemma \<open>Lock_increments_only_live\<close> says.
\<close>

theorem Lock_null_pointer_esft_null_deref:
  "Expired ex_weak_null ex_heap_aliased = Inr False
   \<and> UseCount ex_shared ex_heap_aliased = Inr 2
   \<and> Lock ex_weak_null True ex_heap_aliased
       = Inl (NullDeref, store_block 7 (ex_block_aliased\<lparr>strong_ref_cnt := 3\<rparr>) ex_heap_aliased)
   \<and> UseCount ex_shared (store_block 7 (ex_block_aliased\<lparr>strong_ref_cnt := 3\<rparr>) ex_heap_aliased)
       = Inr 3"
  by (simp add: Lock_def Expired_def SharedPtr_from_block_def IncreaseStrongCounter_def
      InitWeakThis_null UseCount_def SharedPtr_GetStrongCounter_def cb_defs ex_defs)

section \<open>Releasing a \<^verbatim>\<open>WeakPtr\<close>\<close>


subsection \<open>A block without owners is marked destroyed\<close>

text \<open>
  The constructors that allocate a block return it with a strong counter of 1,
  \<^verbatim>\<open>DecreaseStrongCounter\<close> runs \<^verbatim>\<open>Destroy()\<close> as soon as the counter reaches
  zero, and the operations on the weak counter leave the strong counter and
  the destroyed flag alone. So the handle operations keep the heap such that
  an allocated block with a strong counter of zero is marked destroyed, as
  long as no increment wraps the strong counter.
\<close>

lemma uid_IncreaseWeakCounter:
  "unowned_is_destroyed h \<Longrightarrow> IncreaseWeakCounter w h = Inr h' \<Longrightarrow> unowned_is_destroyed h'"
  by (auto simp: unowned_is_destroyed_def IncreaseWeakCounter_def cb_defs
      split: option.splits if_splits)

lemma uid_DecreaseWeakCounter:
  "unowned_is_destroyed h \<Longrightarrow> DecreaseWeakCounter w h = Inr h' \<Longrightarrow> unowned_is_destroyed h'"
  by (auto simp: unowned_is_destroyed_def DecreaseWeakCounter_def cb_defs Let_def
      split: option.splits if_splits)

lemma uid_WeakPtr_Reset:
  "unowned_is_destroyed h \<Longrightarrow> WeakPtr_Reset w h = Inr (w', h') \<Longrightarrow> unowned_is_destroyed h'"
  by (auto simp: WeakPtr_Reset_def split: sum.splits dest: uid_DecreaseWeakCounter)

lemma uid_IncreaseStrongCounter:
  assumes "unowned_is_destroyed h" and "IncreaseStrongCounter sp h = Inr h'"
    and "\<And>b blk. sp_control_block sp = Some b \<Longrightarrow> blocks h b = Some blk
           \<Longrightarrow> unat (strong_ref_cnt blk) + 1 < 2 ^ 64"
  shows "unowned_is_destroyed h'"
proof (cases "sp_control_block sp")
  case None
  with assms(1,2) show ?thesis by (simp add: IncreaseStrongCounter_def)
next
  case (Some b)
  with assms(2) obtain blk where blk: "blocks h b = Some blk"
    and h': "h' = store_block b (IncStrongRef blk) h"
    by (auto simp: IncreaseStrongCounter_def split: option.splits)
  have "unat (strong_ref_cnt blk) + unat (1 :: size_t) < 2 ^ 64"
    using assms(3)[OF Some blk] by simp
  then have "unat (strong_ref_cnt blk + 1) = unat (strong_ref_cnt blk) + 1"
    by (simp add: unat_add_lem[THEN iffD1])
  then have "strong_ref_cnt blk + 1 \<noteq> 0" by (auto simp: unat_eq_0[symmetric] simp del: unat_eq_0)
  with assms(1) h' show ?thesis
    by (auto simp: unowned_is_destroyed_def cb_defs split: if_splits)
qed

lemma uid_destroy_object:
  assumes "unowned_is_destroyed h" and "destroy_object a h = Inr h'"
  shows "unowned_is_destroyed h'"
proof -
  let ?h1 = "h\<lparr>dtor_runs := (dtor_runs h)(a := dtor_runs h a + 1)\<rparr>"
  have u1: "unowned_is_destroyed ?h1" using assms(1) by (simp add: unowned_is_destroyed_def)
  from assms(2) obtain ob where ob: "objects h a = Some ob"
    by (auto simp: destroy_object_def split: option.splits)
  show ?thesis
  proof (cases ob)
    case PlainObject
    with assms(2) ob u1 show ?thesis
      by (auto simp: destroy_object_def Let_def unowned_is_destroyed_def)
  next
    case (EsftObject wt)
    with assms(2) ob obtain wt' h2 where r: "WeakPtr_Reset wt ?h1 = Inr (wt', h2)"
      and h': "h' = h2\<lparr>objects := (objects h2)(a := None)\<rparr>"
      by (auto simp: destroy_object_def Let_def split: sum.splits)
    from uid_WeakPtr_Reset[OF u1 r] h' show ?thesis by (simp add: unowned_is_destroyed_def)
  qed
qed

lemma uid_Destroy:
  assumes "unowned_is_destroyed h" and "Destroy b h = Inr h'"
  shows "unowned_is_destroyed h'"
proof -
  from assms(2) obtain blk where blk: "blocks h b = Some blk"
    by (auto simp: Destroy_def split: option.splits)
  show ?thesis
  proof (cases "is_destroyed blk")
    case True
    with assms blk show ?thesis by (simp add: Destroy_def)
  next
    case False
    let ?h1 = "store_block b (blk\<lparr>strong_ref_cnt := 0, is_destroyed := True\<rparr>) h"
    have u1: "unowned_is_destroyed ?h1"
      using assms(1) by (auto simp: unowned_is_destroyed_def store_block_def split: if_splits)
    from assms(2) blk False have "h' = ?h1 \<or> (\<exists>a. destroy_object a ?h1 = Inr h')"
      by (auto simp: Destroy_def Let_def split: block_kind.splits option.splits)
    with u1 show ?thesis using uid_destroy_object by blast
  qed
qed

lemma uid_DecreaseStrongCounter:
  assumes "unowned_is_destroyed h" and "DecreaseStrongCounter sp h = Inr h'"
  shows "unowned_is_destroyed h'"
proof (cases "sp_control_block sp")
  case None
  with assms show ?thesis by (simp add: DecreaseStrongCounter_def)
next
  case (Some b)
  with assms(2) obtain blk where blk: "blocks h b = Some blk"
    by (auto simp: DecreaseStrongCounter_def split: option.splits)
  let ?h1 = "store_block b (DecStrongRef blk) h"
  show ?thesis
  proof (cases "strong_ref_cnt blk - 1 = 0")
    case False
    with assms Some blk show ?thesis
      by (auto simp: DecreaseStrongCounter_def unowned_is_destroyed_def cb_defs Let_def
          split: if_splits)
  next
    case True
    let ?h0 = "store_block b (blk\<lparr>strong_ref_cnt := 0, is_destroyed := True\<rparr>) h"
    have u0: "unowned_is_destroyed ?h0"
      using assms(1) by (auto simp: unowned_is_destroyed_def store_block_def split: if_splits)
    from assms(2) Some blk True obtain h2 where d: "Destroy b ?h1 = Inr h2"
      and h': "h' = h2 \<or> h' = delete_block b h2"
      by (auto simp: DecreaseStrongCounter_def cb_defs Let_def split: sum.splits option.splits if_splits)
    have "unowned_is_destroyed h2"
    proof (cases "is_destroyed blk")
      case True
      with d have "h2 = ?h1" by (simp add: Destroy_def store_block_def DecStrongRef_def)
      with assms(1) blk True show ?thesis
        by (auto simp: unowned_is_destroyed_def cb_defs split: if_splits)
    next
      case False
      with d have "h2 = ?h0 \<or> (\<exists>a. destroy_object a ?h0 = Inr h2)"
        by (auto simp: Destroy_def Let_def cb_defs split: block_kind.splits option.splits)
      with u0 show ?thesis using uid_destroy_object by blast
    qed
    with h' show ?thesis by (auto simp: unowned_is_destroyed_def delete_block_def split: if_splits)
  qed
qed


lemma uid_InitWeakThis:
  assumes "unowned_is_destroyed h" and "InitWeakThis sp p h = Inr h'"
  shows "unowned_is_destroyed h'"
proof -
  from assms(2) obtain a wt tmp h1 wt1 tmp1 h2 tmp2 h3 where
    1: "WeakPtr_from_shared sp h = Inr (tmp, h1)"
    and 2: "WeakPtr_move_assign False wt tmp h1 = Inr ((wt1, tmp1), h2)"
    and 3: "WeakPtr_Reset tmp1 h2 = Inr (tmp2, h3)"
    and h': "h' = h3\<lparr>objects := (objects h3)(a \<mapsto> EsftObject (MakeEsftPtr wt1))\<rparr>"
    by (auto simp: InitWeakThis_def split: option.splits object.splits sum.splits)
  from 1 assms(1) have u1: "unowned_is_destroyed h1"
    by (auto simp: WeakPtr_from_shared_def Let_def split: sum.splits
        dest: uid_IncreaseWeakCounter)
  from 2 u1 have u2: "unowned_is_destroyed h2"
    by (auto simp: WeakPtr_move_assign_def split: sum.splits dest: uid_WeakPtr_Reset)
  from uid_WeakPtr_Reset[OF u2 3] h' show ?thesis by (simp add: unowned_is_destroyed_def)
qed

lemma uid_SharedPtr_from_raw:
  assumes "unowned_is_destroyed h" and "SharedPtr_from_raw b p esft h = Inr (sp, h')"
  shows "unowned_is_destroyed h'"
proof -
  let ?h1 = "store_block b ((new_block (DefaultBlock p))\<lparr>strong_ref_cnt := 1\<rparr>) h"
  have u1: "unowned_is_destroyed ?h1"
    using assms(1) by (auto simp: unowned_is_destroyed_def store_block_def split: if_splits)
  from assms(2) have "h' = ?h1 \<or> (\<exists>sp' q. InitWeakThis sp' q ?h1 = Inr h')"
    by (auto simp: SharedPtr_from_raw_def IncreaseStrongCounter_def cb_defs Let_def
        split: sum.splits if_splits)
  with u1 show ?thesis using uid_InitWeakThis by blast
qed

lemma uid_MakeShared:
  assumes "unowned_is_destroyed h" and "MakeShared b a esft h = Inr (sp, h')"
  shows "unowned_is_destroyed h'"
proof -
  let ?h1 = "(store_block b ((new_block (InlineBlock a))\<lparr>strong_ref_cnt := 1\<rparr>) h)
      \<lparr>objects := (objects h)(a \<mapsto> (if esft then EsftObject WeakPtr_default else PlainObject))\<rparr>"
  have u1: "unowned_is_destroyed ?h1"
    using assms(1) by (auto simp: unowned_is_destroyed_def store_block_def split: if_splits)
  have "\<exists>g. unowned_is_destroyed g \<and> (h' = g \<or> (\<exists>sp' q. InitWeakThis sp' q g = Inr h'))"
  proof (cases esft)
    case False
    with assms(2) have "blocks h' = blocks ?h1"
      by (auto simp: MakeShared_def SharedPtr_from_block_def IncreaseStrongCounter_def cb_defs
          Let_def)
    with u1 have "unowned_is_destroyed h'" by (simp add: unowned_is_destroyed_def)
    then show ?thesis by blast
  next
    case True
    with assms(2) obtain g sp' q where g: "InitWeakThis sp' q g = Inr h'"
      and bg: "blocks g = blocks ?h1"
      by (auto simp: MakeShared_def SharedPtr_from_block_def IncreaseStrongCounter_def cb_defs
          Let_def split: sum.splits)
    from bg u1 have "unowned_is_destroyed g" by (simp add: unowned_is_destroyed_def)
    with g show ?thesis by blast
  qed
  then show ?thesis using uid_InitWeakThis by blast
qed

lemma uid_empty_heap: "unowned_is_destroyed empty_heap"
  by (simp add: unowned_is_destroyed_def empty_heap_def)

subsection \<open>What the release frees\<close>



section \<open>The self-reference flag\<close>

lemma weak_constructors_unflagged:
  "is_esft_ptr WeakPtr_default = False"
  "WeakPtr_copy other h = Inr (w', h') \<Longrightarrow> \<not> is_esft_ptr w'"
  "WeakPtr_move other h = Inr ((w', other'), h') \<Longrightarrow> \<not> is_esft_ptr w'"
  "WeakPtr_from_shared sp h = Inr (w', h') \<Longrightarrow> \<not> is_esft_ptr w'"
  "WeakFromThis a h = Inr (w', h') \<Longrightarrow> \<not> is_esft_ptr w'"
  by (auto simp: WeakPtr_default_def WeakPtr_copy_def WeakPtr_move_def WeakPtr_from_shared_def
      WeakFromThis_def Let_def split: sum.splits option.splits object.splits)

lemma weak_assignment_keeps_flag:
  "WeakPtr_copy_assign same w other h = Inr (w', h') \<Longrightarrow> is_esft_ptr w' = is_esft_ptr w"
  "WeakPtr_move_assign same w other h = Inr ((w', other'), h')
     \<Longrightarrow> is_esft_ptr w' = is_esft_ptr w \<and> is_esft_ptr other' = is_esft_ptr other"
  "is_esft_ptr (fst (WeakPtr_Swap w other)) = is_esft_ptr w"
  "is_esft_ptr (snd (WeakPtr_Swap w other)) = is_esft_ptr other"
  "WeakPtr_Reset w h = Inr (w', h') \<Longrightarrow> is_esft_ptr w' = is_esft_ptr w"
  by (auto simp: WeakPtr_copy_assign_def WeakPtr_move_assign_def WeakPtr_Swap_def
      WeakPtr_Reset_def Let_def split: sum.splits if_splits)

lemma flagged_never_frees:
  "is_esft_ptr w \<Longrightarrow> DecreaseWeakCounter w h = Inr h' \<Longrightarrow> blocks h c = Some blk
     \<Longrightarrow> blocks h' c \<noteq> None"
  by (auto simp: DecreaseWeakCounter_def cb_defs Let_def split: option.splits if_splits)

lemma unflagged_frees_on_zero:
  "\<not> is_esft_ptr w \<Longrightarrow> wp_control_block w = Some b \<Longrightarrow> blocks h b = Some blk
     \<Longrightarrow> DecreaseWeakCounter w h
         = Inr (if CanDeleteControlBlock (DecWeakRef blk) then delete_block b h
                else store_block b (DecWeakRef blk) h)"
  by (simp add: DecreaseWeakCounter_def store_block_def delete_block_def)

lemma InitWeakThis_flags_member:
  "InitWeakThis sp p h = Inr h' \<Longrightarrow>
     \<exists>a wt. p = Some a \<and> objects h' a = Some (EsftObject wt) \<and> is_esft_ptr wt
       \<and> wp_control_block wt = sp_control_block sp \<and> wp_ptr wt = sp_ptr sp"
  by (auto simp: InitWeakThis_def WeakPtr_from_shared_def WeakPtr_move_assign_def
      WeakPtr_Swap_def WeakPtr_Reset_def MakeEsftPtr_def Let_def
      split: sum.splits option.splits object.splits prod.splits)

text \<open>
  C10. No \<^verbatim>\<open>WeakPtr\<close> constructor sets \<^verbatim>\<open>is_esft_ptr_\<close>: the default, copy and
  move constructors, the construction from a \<^verbatim>\<open>SharedPtr\<close> and
  \<^verbatim>\<open>WeakFromThis()\<close> return an unflagged handle, also when the source is
  flagged. Assignment, \<^verbatim>\<open>Swap()\<close> and \<^verbatim>\<open>Reset()\<close> leave the flag of each handle
  as it was. \<^verbatim>\<open>InitWeakThis\<close> leaves the embedded \<^verbatim>\<open>weak_this_\<close> flagged and
  referencing the block of the wrapping handle. The decrement of a flagged
  handle frees no block; that of an unflagged handle frees its block exactly
  when \<^verbatim>\<open>CanDeleteControlBlock()\<close> holds after the decrement.
\<close>

theorem only_weak_this_is_flagged:
  "\<not> is_esft_ptr WeakPtr_default
   \<and> (\<forall>w' h'. WeakPtr_copy other h = Inr (w', h') \<longrightarrow> \<not> is_esft_ptr w')
   \<and> (\<forall>w' other' h'. WeakPtr_move other h = Inr ((w', other'), h') \<longrightarrow> \<not> is_esft_ptr w')
   \<and> (\<forall>w' h'. WeakPtr_from_shared sp h = Inr (w', h') \<longrightarrow> \<not> is_esft_ptr w')
   \<and> (\<forall>w' h'. WeakFromThis a h = Inr (w', h') \<longrightarrow> \<not> is_esft_ptr w')
   \<and> (\<forall>w' h'. WeakPtr_copy_assign same w other h = Inr (w', h')
         \<longrightarrow> is_esft_ptr w' = is_esft_ptr w)
   \<and> (\<forall>w' other' h'. WeakPtr_move_assign same w other h = Inr ((w', other'), h')
         \<longrightarrow> is_esft_ptr w' = is_esft_ptr w \<and> is_esft_ptr other' = is_esft_ptr other)
   \<and> is_esft_ptr (fst (WeakPtr_Swap w other)) = is_esft_ptr w
   \<and> is_esft_ptr (snd (WeakPtr_Swap w other)) = is_esft_ptr other
   \<and> (\<forall>w' h'. WeakPtr_Reset w h = Inr (w', h') \<longrightarrow> is_esft_ptr w' = is_esft_ptr w)
   \<and> (\<forall>h'. InitWeakThis sp p h = Inr h' \<longrightarrow>
         (\<exists>a wt. p = Some a \<and> objects h' a = Some (EsftObject wt) \<and> is_esft_ptr wt
            \<and> wp_control_block wt = sp_control_block sp \<and> wp_ptr wt = sp_ptr sp))
   \<and> (\<forall>h' c blk. is_esft_ptr w \<and> DecreaseWeakCounter w h = Inr h' \<and> blocks h c = Some blk
         \<longrightarrow> blocks h' c \<noteq> None)
   \<and> (\<forall>b blk. \<not> is_esft_ptr w \<and> wp_control_block w = Some b \<and> blocks h b = Some blk
         \<longrightarrow> DecreaseWeakCounter w h
               = Inr (if CanDeleteControlBlock (DecWeakRef blk) then delete_block b h
                      else store_block b (DecWeakRef blk) h))"
proof (intro conjI allI impI)
  show "\<not> is_esft_ptr WeakPtr_default" by (simp add: weak_constructors_unflagged(1))
  show "\<not> is_esft_ptr w'" if "WeakPtr_copy other h = Inr (w', h')" for w' h'
    using that by (rule weak_constructors_unflagged(2))
  show "\<not> is_esft_ptr w'" if "WeakPtr_move other h = Inr ((w', other'), h')" for w' other' h'
    using that by (rule weak_constructors_unflagged(3))
  show "\<not> is_esft_ptr w'" if "WeakPtr_from_shared sp h = Inr (w', h')" for w' h'
    using that by (rule weak_constructors_unflagged(4))
  show "\<not> is_esft_ptr w'" if "WeakFromThis a h = Inr (w', h')" for w' h'
    using that by (rule weak_constructors_unflagged(5))
  show "is_esft_ptr w' = is_esft_ptr w"
    if "WeakPtr_copy_assign same w other h = Inr (w', h')" for w' h'
    using that by (rule weak_assignment_keeps_flag(1))
  show "is_esft_ptr w' = is_esft_ptr w"
    if "WeakPtr_move_assign same w other h = Inr ((w', other'), h')" for w' other' h'
    using weak_assignment_keeps_flag(2)[OF that] by simp
  show "is_esft_ptr other' = is_esft_ptr other"
    if "WeakPtr_move_assign same w other h = Inr ((w', other'), h')" for w' other' h'
    using weak_assignment_keeps_flag(2)[OF that] by simp
  show "is_esft_ptr (fst (WeakPtr_Swap w other)) = is_esft_ptr w"
    by (rule weak_assignment_keeps_flag(3))
  show "is_esft_ptr (snd (WeakPtr_Swap w other)) = is_esft_ptr other"
    by (rule weak_assignment_keeps_flag(4))
  show "is_esft_ptr w' = is_esft_ptr w" if "WeakPtr_Reset w h = Inr (w', h')" for w' h'
    using that by (rule weak_assignment_keeps_flag(5))
  show "\<exists>a wt. p = Some a \<and> objects h' a = Some (EsftObject wt) \<and> is_esft_ptr wt
            \<and> wp_control_block wt = sp_control_block sp \<and> wp_ptr wt = sp_ptr sp"
    if "InitWeakThis sp p h = Inr h'" for h'
    using that by (rule InitWeakThis_flags_member)
  show "blocks h' c \<noteq> None"
    if "is_esft_ptr w \<and> DecreaseWeakCounter w h = Inr h' \<and> blocks h c = Some blk" for h' c blk
    using that flagged_never_frees by blast
  show "DecreaseWeakCounter w h
               = Inr (if CanDeleteControlBlock (DecWeakRef blk) then delete_block b h
                      else store_block b (DecWeakRef blk) h)"
    if "\<not> is_esft_ptr w \<and> wp_control_block w = Some b \<and> blocks h b = Some blk" for b blk
    using that unflagged_frees_on_zero by blast
qed

text \<open>
  A copy of the flagged \<^verbatim>\<open>weak_this_\<close> of the example is unflagged, and the
  decrement of the flagged handle leaves the block allocated at a combined
  count of zero.
\<close>

theorem only_weak_this_is_flagged_witness:
  "WeakPtr_copy ex_weak_this ex_heap_teardown
     = Inr (ex_weak, store_block 7 (ex_block_destroyed\<lparr>weak_ref_cnt := 2\<rparr>) ex_heap_teardown)
   \<and> \<not> is_esft_ptr ex_weak
   \<and> DecreaseWeakCounter ex_weak_this ex_heap_teardown
       = Inr (store_block 7 (ex_block_destroyed\<lparr>weak_ref_cnt := 0\<rparr>) ex_heap_teardown)
   \<and> blocks (store_block 7 (ex_block_destroyed\<lparr>weak_ref_cnt := 0\<rparr>) ex_heap_teardown) 7 \<noteq> None"
proof -
  note T = only_weak_this_is_flagged[where other = ex_weak_this and h = ex_heap_teardown
      and w = ex_weak_this]
  have c: "WeakPtr_copy ex_weak_this ex_heap_teardown
             = Inr (ex_weak, store_block 7 (ex_block_destroyed\<lparr>weak_ref_cnt := 2\<rparr>) ex_heap_teardown)"
    by (simp add: WeakPtr_copy_def IncreaseWeakCounter_def cb_defs ex_defs)
  have d: "DecreaseWeakCounter ex_weak_this ex_heap_teardown
       = Inr (store_block 7 (ex_block_destroyed\<lparr>weak_ref_cnt := 0\<rparr>) ex_heap_teardown)"
    by (simp add: DecreaseWeakCounter_def cb_defs ex_defs)
  have f: "is_esft_ptr ex_weak_this" "blocks ex_heap_teardown 7 = Some ex_block_destroyed"
    by (simp_all add: ex_defs)
  have "\<forall>w' h'. WeakPtr_copy ex_weak_this ex_heap_teardown = Inr (w', h') \<longrightarrow> \<not> is_esft_ptr w'"
    by (rule T[THEN conjunct2, THEN conjunct1])
  with c have 1: "\<not> is_esft_ptr ex_weak" by blast
  have "\<forall>h' c blk. is_esft_ptr ex_weak_this \<and> DecreaseWeakCounter ex_weak_this ex_heap_teardown = Inr h'
          \<and> blocks ex_heap_teardown c = Some blk \<longrightarrow> blocks h' c \<noteq> None"
    by (rule T[THEN conjunct2, THEN conjunct2, THEN conjunct2, THEN conjunct2, THEN conjunct2,
          THEN conjunct2, THEN conjunct2, THEN conjunct2, THEN conjunct2, THEN conjunct2,
          THEN conjunct2, THEN conjunct1])
  with d f have 2: "blocks (store_block 7 (ex_block_destroyed\<lparr>weak_ref_cnt := 0\<rparr>) ex_heap_teardown) 7
      \<noteq> None"
    by blast
  from c 1 d 2 show ?thesis by blast
qed

section \<open>\<^verbatim>\<open>Destroy\<close> runs the destructor once\<close>

text \<open>
  \<^verbatim>\<open>Destroy()\<close> sets \<^verbatim>\<open>is_destroyed\<close> before it touches the object, and nothing
  clears the flag, so a block that is still allocated after \<^verbatim>\<open>Destroy()\<close> is
  marked destroyed.
\<close>

lemma Destroy_marks:
  "Destroy b h = Inr h1 \<Longrightarrow> blocks h1 b = Some blk1 \<Longrightarrow> is_destroyed blk1"
  by (auto simp: Destroy_def destroy_object_def WeakPtr_Reset_def DecreaseWeakCounter_def
      cb_defs Let_def
      split: option.splits if_splits block_kind.splits object.splits sum.splits)

lemma Destroy_twice:
  assumes "Destroy b h = Inr h1" and "blocks h1 b \<noteq> None"
  shows "Destroy b h1 = Inr h1"
proof -
  from assms(2) obtain blk1 where b1: "blocks h1 b = Some blk1" by auto
  from Destroy_marks[OF assms(1) b1] b1 show ?thesis by (simp add: Destroy_def)
qed

text \<open>
  C6. Let a \<^verbatim>\<open>SharedPtr\<close> be the last owner of a live object, which is a plain
  object or one whose flagged \<^verbatim>\<open>weak_this_\<close> references the block, and let
  other \<^verbatim>\<open>WeakPtr\<close> handles reference the block. Releasing the handle runs the
  object's destructor once, ends the object's lifetime, and leaves the block
  allocated and marked destroyed with a strong counter of 0; \<^verbatim>\<open>Destroy()\<close> on
  that block then changes nothing. In general, when \<^verbatim>\<open>Destroy()\<close> has returned
  and the block is still allocated, a second \<^verbatim>\<open>Destroy()\<close> returns the same
  heap.
\<close>

theorem last_release_destroys_once:
  assumes "sp_control_block sp = Some b" and "blocks h b = Some blk"
    and "strong_ref_cnt blk = 1" and "\<not> is_destroyed blk"
    and "GetRawPtr blk = Some a" and "objects h a = Some ob"
    and "ob = PlainObject
         \<or> ob = EsftObject \<lparr>wp_control_block = Some b, wp_ptr = p, is_esft_ptr = True\<rparr>"
    and "weak_ref_cnt blk \<noteq> (case ob of PlainObject \<Rightarrow> 0 | EsftObject wt \<Rightarrow> 1)"
  shows "(let blk' = blk\<lparr>strong_ref_cnt := 0, is_destroyed := True,
                          weak_ref_cnt := weak_ref_cnt blk
                             - (case ob of PlainObject \<Rightarrow> 0 | EsftObject wt \<Rightarrow> 1)\<rparr>;
              h' = h\<lparr>blocks := (blocks h)(b \<mapsto> blk'),
                     objects := (objects h)(a := None),
                     dtor_runs := (dtor_runs h)(a := dtor_runs h a + 1)\<rparr>
          in SharedPtr_Reset sp h = Inr (sp\<lparr>sp_control_block := None, sp_ptr := None\<rparr>, h')
             \<and> Destroy b h' = Inr h')
         \<and> (\<forall>g g'. Destroy b g = Inr g' \<and> blocks g' b \<noteq> None \<longrightarrow> Destroy b g' = Inr g')"
proof -
  have "Destroy b g' = Inr g'" if "Destroy b g = Inr g'" "blocks g' b \<noteq> None" for g g'
    using that by (rule Destroy_twice)
  moreover have "(let blk' = blk\<lparr>strong_ref_cnt := 0, is_destroyed := True,
                          weak_ref_cnt := weak_ref_cnt blk
                             - (case ob of PlainObject \<Rightarrow> 0 | EsftObject wt \<Rightarrow> 1)\<rparr>;
              h' = h\<lparr>blocks := (blocks h)(b \<mapsto> blk'),
                     objects := (objects h)(a := None),
                     dtor_runs := (dtor_runs h)(a := dtor_runs h a + 1)\<rparr>
          in SharedPtr_Reset sp h = Inr (sp\<lparr>sp_control_block := None, sp_ptr := None\<rparr>, h')
             \<and> Destroy b h' = Inr h')"
    using assms
    by (cases "kind blk")
      (auto simp: SharedPtr_Reset_def DecreaseStrongCounter_def Destroy_def destroy_object_def
        WeakPtr_Reset_def DecreaseWeakCounter_def GetRawPtr_def cb_defs Let_def)
  ultimately show ?thesis by blast
qed

text \<open>
  Releasing the only owner in the example states, where \<open>ex_weak\<close> still observes
  the block: of a plain object, and of one with \<^verbatim>\<open>EnableSharedFromThis\<close>.
\<close>

theorem last_release_destroys_once_witness:
  "SharedPtr_Reset ex_shared ex_heap = Inr (SharedPtr_default, ex_heap_destroyed)
   \<and> SharedPtr_Reset ex_shared ex_heap_esft = Inr (SharedPtr_default, ex_heap_destroyed)
   \<and> dtor_runs ex_heap 3 = 0 \<and> dtor_runs ex_heap_esft 3 = 0 \<and> dtor_runs ex_heap_destroyed 3 = 1
   \<and> Destroy 7 ex_heap_destroyed = Inr ex_heap_destroyed"
proof -
  have e: "ex_heap\<lparr>blocks := (blocks ex_heap)(7 \<mapsto> ex_block\<lparr>strong_ref_cnt := 0,
              is_destroyed := True,
              weak_ref_cnt := weak_ref_cnt ex_block
                 - (case PlainObject of PlainObject \<Rightarrow> 0 | EsftObject wt \<Rightarrow> 1)\<rparr>),
            objects := (objects ex_heap)(3 := None),
            dtor_runs := (dtor_runs ex_heap)(3 := dtor_runs ex_heap 3 + 1)\<rparr> = ex_heap_destroyed"
    by (simp add: ex_defs fun_eq_iff)
  have "sp_control_block ex_shared = Some 7" "blocks ex_heap 7 = Some ex_block"
    "strong_ref_cnt ex_block = 1" "\<not> is_destroyed ex_block" "GetRawPtr ex_block = Some 3"
    "objects ex_heap 3 = Some PlainObject"
    "PlainObject = PlainObject
       \<or> PlainObject = EsftObject \<lparr>wp_control_block = Some 7, wp_ptr = None, is_esft_ptr = True\<rparr>"
    "weak_ref_cnt ex_block \<noteq> (case PlainObject of PlainObject \<Rightarrow> 0 | EsftObject wt \<Rightarrow> 1)"
    by (simp_all add: ex_defs GetRawPtr_def)
  from last_release_destroys_once[OF this]
  have 1: "SharedPtr_Reset ex_shared ex_heap
          = Inr (ex_shared\<lparr>sp_control_block := None, sp_ptr := None\<rparr>, ex_heap_destroyed)
        \<and> Destroy 7 ex_heap_destroyed = Inr ex_heap_destroyed"
    unfolding Let_def e by blast
  have e': "ex_heap_esft\<lparr>blocks := (blocks ex_heap_esft)(7 \<mapsto> ex_block_esft\<lparr>strong_ref_cnt := 0,
              is_destroyed := True,
              weak_ref_cnt := weak_ref_cnt ex_block_esft
                 - (case EsftObject ex_weak_this of PlainObject \<Rightarrow> 0 | EsftObject wt \<Rightarrow> 1)\<rparr>),
            objects := (objects ex_heap_esft)(3 := None),
            dtor_runs := (dtor_runs ex_heap_esft)(3 := dtor_runs ex_heap_esft 3 + 1)\<rparr>
          = ex_heap_destroyed"
    by (simp add: ex_defs fun_eq_iff)
  have "sp_control_block ex_shared = Some 7" "blocks ex_heap_esft 7 = Some ex_block_esft"
    "strong_ref_cnt ex_block_esft = 1" "\<not> is_destroyed ex_block_esft"
    "GetRawPtr ex_block_esft = Some 3"
    "objects ex_heap_esft 3 = Some (EsftObject ex_weak_this)"
    "EsftObject ex_weak_this = PlainObject
       \<or> EsftObject ex_weak_this
          = EsftObject \<lparr>wp_control_block = Some 7, wp_ptr = Some 3, is_esft_ptr = True\<rparr>"
    "weak_ref_cnt ex_block_esft
       \<noteq> (case EsftObject ex_weak_this of PlainObject \<Rightarrow> 0 | EsftObject wt \<Rightarrow> 1)"
    by (simp_all add: ex_defs GetRawPtr_def)
  from last_release_destroys_once[OF this]
  have 2: "SharedPtr_Reset ex_shared ex_heap_esft
          = Inr (ex_shared\<lparr>sp_control_block := None, sp_ptr := None\<rparr>, ex_heap_destroyed)"
    unfolding Let_def e' by blast
  from 1 2 show ?thesis by (simp add: ex_defs SharedPtr_default_def)
qed

end
